theory Spec2Isabelle
  imports Complex_Main "HOL-Library.Word" "HOL-Library.AList"
begin

unbundle bit_operations_syntax

section \<open>Bytes, strings and typed-array primitives\<close>

text \<open>
  A \<open>Uint8Array\<close> is a list of 8-bit words. A JavaScript string is represented by its
  UTF-8 encoding (strings with unpaired surrogates are outside the model), so that
  \<open>TextEncoder.encode\<close> is the identity on this representation. JavaScript numbers that
  hold integers are \<open>int\<close>, a \<open>bigint\<close> is \<open>int\<close> as well.
\<close>

type_synonym byte = "8 word"
type_synonym bytes = "byte list"
type_synonym js_string = "byte list"

definition ascii :: "string \<Rightarrow> js_string" where
  "ascii s = map of_char s"

text \<open>\<open>TypedArray.prototype.slice(start, fin)\<close>: negative indices count from the end,
  both are clamped to the length, and an end before the start gives the empty array.\<close>

definition slice :: "'a list \<Rightarrow> int \<Rightarrow> int \<Rightarrow> 'a list" where
  "slice xs start fin =
     (let len = int (length xs);
          s = (if start < 0 then max (len + start) 0 else min start len);
          e = (if fin < 0 then max (len + fin) 0 else min fin len)
      in take (nat (e - s)) (drop (nat s) xs))"

text \<open>\<open>data[i]\<close> used as an operand of \<open><<\<close> and \<open>|\<close>: an index past the end reads
  \<open>undefined\<close>, which these operators coerce to 0.\<close>

definition byteAt :: "bytes \<Rightarrow> int \<Rightarrow> int" where
  "byteAt data i = (if 0 \<le> i \<and> i < int (length data) then uint (data ! nat i) else 0)"

section \<open>BinaryProtocol: the packet envelope\<close>

record BitchatPacket =
  version :: int
  type :: int
  ttl :: int
  timestamp :: int
  senderID :: bytes
  recipientID :: "bytes option"
  payload :: bytes
  signature :: "bytes option"

definition HEADER_SIZE :: int where "HEADER_SIZE = 13"
definition SENDER_ID_SIZE :: int where "SENDER_ID_SIZE = 8"
definition RECIPIENT_ID_SIZE :: int where "RECIPIENT_ID_SIZE = 8"
definition SIGNATURE_SIZE :: int where "SIGNATURE_SIZE = 64"
definition VERSION :: int where "VERSION = 1"
definition HAS_RECIPIENT :: int where "HAS_RECIPIENT = 0x01"
definition HAS_SIGNATURE :: int where "HAS_SIGNATURE = 0x02"
definition IS_COMPRESSED :: int where "IS_COMPRESSED = 0x04"

definition MSG_ANNOUNCE :: int where "MSG_ANNOUNCE = 0x01"
definition MSG_LEAVE :: int where "MSG_LEAVE = 0x03"
definition MSG_MESSAGE :: int where "MSG_MESSAGE = 0x04"
definition MSG_FRAGMENT_START :: int where "MSG_FRAGMENT_START = 0x05"
definition MSG_FRAGMENT_CONTINUE :: int where "MSG_FRAGMENT_CONTINUE = 0x06"
definition MSG_FRAGMENT_END :: int where "MSG_FRAGMENT_END = 0x07"

definition BROADCAST :: bytes where
  "BROADCAST = replicate 8 0xFF"

text \<open>\<open>isLikelyCompressed\<close>: \<open>uniqueBytes / data.length > 0.7\<close>, written without the
  division (the lengths are far below the range where the rounding of the quotient
  could matter).\<close>

definition isLikelyCompressed :: "bytes \<Rightarrow> bool" where
  "isLikelyCompressed data = (10 * length (remdups data) > 7 * length data)"

definition shouldCompress :: "bytes \<Rightarrow> bool" where
  "shouldCompress data = (length data > 100 \<and> \<not> isLikelyCompressed data)"

definition compress :: "bytes \<Rightarrow> bytes option" where
  "compress data = None"

definition decompress :: "bytes \<Rightarrow> int \<Rightarrow> bytes option" where
  "decompress data originalSize = None"

text \<open>\<open>new Uint8Array(8)\<close> followed by \<open>set(id.slice(0, 8))\<close>.\<close>

definition padded :: "nat \<Rightarrow> bytes \<Rightarrow> bytes" where
  "padded n xs = take n xs @ replicate (n - length (take n xs)) 0"

definition encode :: "BitchatPacket \<Rightarrow> bytes option" where
  "encode packet =
     (let compressed = (if shouldCompress (payload packet) then compress (payload packet) else None);
          payload' = (case compressed of Some c \<Rightarrow> c | None \<Rightarrow> payload packet);
          originalPayloadSize =
            (case compressed of Some c \<Rightarrow> Some (int (length (payload packet))) | None \<Rightarrow> None);
          isCompressed = (compressed \<noteq> None);
          flags = (if recipientID packet \<noteq> None then HAS_RECIPIENT else 0)
                  OR (if signature packet \<noteq> None then HAS_SIGNATURE else 0)
                  OR (if isCompressed then IS_COMPRESSED else 0);
          payloadDataSize = int (length payload') + (if isCompressed then 2 else 0)
      in Some
        ([of_int (if version packet = 0 then VERSION else version packet),
          of_int (type packet),
          of_int (ttl packet)]
         @ map (\<lambda>i. of_int (drop_bit (i * 8) (timestamp packet) AND 0xFF)) [7, 6, 5, 4, 3, 2, 1, 0]
         @ [of_int flags,
            of_int (drop_bit 8 payloadDataSize AND 0xFF),
            of_int (payloadDataSize AND 0xFF)]
         @ padded 8 (senderID packet)
         @ (case recipientID packet of Some r \<Rightarrow> padded 8 r | None \<Rightarrow> [])
         @ (case originalPayloadSize of
              Some n \<Rightarrow> [of_int (drop_bit 8 n AND 0xFF), of_int (n AND 0xFF)]
            | None \<Rightarrow> [])
         @ payload'
         @ (case signature packet of Some s \<Rightarrow> padded 64 s | None \<Rightarrow> [])))"

definition trimNullBytes :: "bytes \<Rightarrow> bytes" where
  "trimNullBytes data = takeWhile (\<lambda>b. b \<noteq> 0) data"

definition decode :: "bytes \<Rightarrow> BitchatPacket option" where
  "decode data =
     (if int (length data) < HEADER_SIZE + SENDER_ID_SIZE then None
      else
        let version' = byteAt data 0;
            type' = byteAt data 1;
            ttl' = byteAt data 2;
            timestamp' = foldl (\<lambda>t i. push_bit 8 t OR byteAt data i) 0 [3, 4, 5, 6, 7, 8, 9, 10];
            flags = byteAt data 11;
            hasRecipient = (flags AND HAS_RECIPIENT \<noteq> 0);
            hasSignature = (flags AND HAS_SIGNATURE \<noteq> 0);
            isCompressed = (flags AND IS_COMPRESSED \<noteq> 0);
            payloadLength = push_bit 8 (byteAt data 12) OR byteAt data 13;
            offset1 = 14;
            senderID' = slice data offset1 (offset1 + SENDER_ID_SIZE);
            offset2 = offset1 + SENDER_ID_SIZE;
            recipientID' =
              (if hasRecipient then Some (slice data offset2 (offset2 + RECIPIENT_ID_SIZE)) else None);
            offset3 = (if hasRecipient then offset2 + RECIPIENT_ID_SIZE else offset2);
            originalPayloadSize =
              (if isCompressed then push_bit 8 (byteAt data offset3) OR byteAt data (offset3 + 1)
               else 0);
            actualPayloadLength = (if isCompressed then payloadLength - 2 else payloadLength);
            offset4 = (if isCompressed then offset3 + 2 else offset3);
            payload0 = slice data offset4 (offset4 + actualPayloadLength);
            offset5 = offset4 + actualPayloadLength;
            payload' =
              (if isCompressed \<and> originalPayloadSize \<noteq> 0
               then (case decompress payload0 originalPayloadSize of Some d \<Rightarrow> d | None \<Rightarrow> payload0)
               else payload0);
            signature' =
              (if hasSignature then Some (slice data offset5 (offset5 + SIGNATURE_SIZE)) else None)
        in Some \<lparr> version = version', type = type', ttl = ttl', timestamp = timestamp',
                  senderID = trimNullBytes senderID',
                  recipientID = map_option trimNullBytes recipientID',
                  payload = payload', signature = signature' \<rparr>)"


definition valid_packet :: "BitchatPacket \<Rightarrow> bool" where
  "valid_packet p \<longleftrightarrow>
     0 \<le> version p \<and> version p < 256 \<and> 0 \<le> type p \<and> type p < 256 \<and>
     0 \<le> ttl p \<and> ttl p < 256 \<and> 0 \<le> timestamp p \<and> timestamp p < 2 ^ 64 \<and>
     length (senderID p) \<le> 8 \<and>
     (case recipientID p of Some r \<Rightarrow> length r \<le> 8 | None \<Rightarrow> True) \<and>
     length (payload p) \<le> 65535 \<and>
     (case signature p of Some s \<Rightarrow> length s = 64 | None \<Rightarrow> True)"

definition hexDigit :: "nat \<Rightarrow> byte" where
  "hexDigit n = (if n < 10 then of_nat (48 + n) else of_nat (87 + n))"

text \<open>\<open>bytesToHex\<close>: two lower-case hexadecimal digits per byte.\<close>

definition bytesToHex :: "bytes \<Rightarrow> js_string" where
  "bytesToHex bs = concat (map (\<lambda>b. [hexDigit (unat b div 16), hexDigit (unat b mod 16)]) bs)"

text \<open>\<open>hexToBytes\<close> on a string of hexadecimal digit pairs, which is what peer identifiers
  are; \<open>parseInt\<close> reads the hexadecimal prefix of each pair, and \<open>NaN\<close> is stored as 0.\<close>

definition hexValue :: "byte \<Rightarrow> nat option" where
  "hexValue c =
     (if 48 \<le> c \<and> c \<le> 57 then Some (unat c - 48)
      else if 97 \<le> c \<and> c \<le> 102 then Some (unat c - 87)
      else if 65 \<le> c \<and> c \<le> 70 then Some (unat c - 55)
      else None)"

fun hexToBytes :: "js_string \<Rightarrow> bytes" where
  "hexToBytes (a # b # rest) =
     (case hexValue a of
        None \<Rightarrow> 0
      | Some x \<Rightarrow> (case hexValue b of None \<Rightarrow> of_nat x | Some y \<Rightarrow> of_nat (16 * x + y)))
     # hexToBytes rest"
| "hexToBytes _ = []"

section \<open>Text encoding\<close>

text \<open>
  \<open>TextDecoder.decode\<close> is the UTF-8 decoder of the Encoding Standard in replacement
  mode: a malformed sequence becomes U+FFFD, the byte that ended it is read again, and a
  byte order mark at the start of the input is dropped. On the UTF-8 representation of
  strings the decoder copies each well-formed sequence, so \<open>seen\<close> holds the bytes of the
  sequence being read where the standard accumulates its code point.
\<close>

definition REPLACEMENT :: bytes where
  "REPLACEMENT = [0xEF, 0xBF, 0xBD]"

fun utf8_decode :: "nat \<Rightarrow> bytes \<Rightarrow> byte \<Rightarrow> byte \<Rightarrow> bytes \<Rightarrow> js_string" where
  "utf8_decode needed seen lower upper [] = (if needed = 0 then [] else REPLACEMENT)"
| "utf8_decode needed seen lower upper (b # bs) =
     (if needed = 0 then
        (if b \<le> 0x7F then b # utf8_decode 0 [] 0x80 0xBF bs
         else if 0xC2 \<le> b \<and> b \<le> 0xDF then utf8_decode 1 [b] 0x80 0xBF bs
         else if 0xE0 \<le> b \<and> b \<le> 0xEF then
           utf8_decode 2 [b] (if b = 0xE0 then 0xA0 else 0x80) (if b = 0xED then 0x9F else 0xBF) bs
         else if 0xF0 \<le> b \<and> b \<le> 0xF4 then
           utf8_decode 3 [b] (if b = 0xF0 then 0x90 else 0x80) (if b = 0xF4 then 0x8F else 0xBF) bs
         else REPLACEMENT @ utf8_decode 0 [] 0x80 0xBF bs)
      else if b < lower \<or> upper < b then REPLACEMENT @ utf8_decode 0 [] 0x80 0xBF (b # bs)
      else if needed = 1 then seen @ [b] @ utf8_decode 0 [] 0x80 0xBF bs
      else utf8_decode (needed - 1) (seen @ [b]) 0x80 0xBF bs)"

definition stripBOM :: "bytes \<Rightarrow> bytes" where
  "stripBOM data = (if take 3 data = [0xEF, 0xBB, 0xBF] then drop 3 data else data)"

definition TextDecoder_decode :: "bytes \<Rightarrow> js_string" where
  "TextDecoder_decode data = utf8_decode 0 [] 0x80 0xBF (stripBOM data)"

definition TextEncoder_encode :: "js_string \<Rightarrow> bytes" where
  "TextEncoder_encode s = s"

text \<open>\<open>String.prototype.length\<close> counts UTF-16 code units: one for each sequence of up to
  three bytes, two for a four-byte sequence.\<close>

definition js_length :: "js_string \<Rightarrow> nat" where
  "js_length s =
     sum_list (map (\<lambda>b. if 0x80 \<le> b \<and> b < 0xC0 then 0 else if 0xF0 \<le> b then 2 else 1) s)"

section \<open>BitchatMessage and its compact binary codec\<close>

datatype DeliveryStatus = PENDING | DELIVERED | READ | FAILED

record BitchatMessage =
  msg_id :: js_string
  sender :: js_string
  content :: js_string
  msg_timestamp :: int
  isRelay :: bool
  originalSender :: "js_string option"
  isPrivate :: bool
  recipientNickname :: "js_string option"
  senderPeerID :: js_string
  mentions :: "js_string list option"
  channel :: "js_string option"
  encryptedContent :: "bytes option"
  isEncrypted :: bool
  deliveryStatus :: "DeliveryStatus option"

text \<open>The operators \<open>>>\<close>, \<open><<\<close>, \<open>|\<close> and \<open>&\<close> on JavaScript numbers convert their operands
  to 32-bit signed integers and use the shift count modulo 32.\<close>

definition js_sar :: "int \<Rightarrow> int \<Rightarrow> int" where
  "js_sar x n = sint (signed_drop_bit (nat (n mod 32)) (word_of_int x :: 32 word))"

definition js_shl :: "int \<Rightarrow> int \<Rightarrow> int" where
  "js_shl x n = sint (push_bit (nat (n mod 32)) (word_of_int x :: 32 word))"

definition js_or :: "int \<Rightarrow> int \<Rightarrow> int" where
  "js_or x y = sint ((word_of_int x :: 32 word) OR word_of_int y)"

definition js_and :: "int \<Rightarrow> int \<Rightarrow> int" where
  "js_and x y = sint ((word_of_int x :: 32 word) AND word_of_int y)"

text \<open>Truthiness of an optional string: \<open>undefined\<close> and the empty string are false.\<close>

definition truthy :: "js_string option \<Rightarrow> bool" where
  "truthy s = (case s of Some x \<Rightarrow> x \<noteq> [] | None \<Rightarrow> False)"

definition addString :: "js_string \<Rightarrow> bytes" where
  "addString str =
     (let bs = TextEncoder_encode str; n = min (length bs) 255
      in of_nat n # take n bs)"

definition addLength16 :: "bytes \<Rightarrow> bytes" where
  "addLength16 bs =
     (let n = min (int (length bs)) 65535
      in [of_int (js_and (js_sar n 8) 0xFF), of_int (js_and n 0xFF)] @ take (nat n) bs)"

definition addContent :: "js_string \<Rightarrow> bytes" where
  "addContent str = addLength16 (TextEncoder_encode str)"

definition toIOSBinaryPayload :: "BitchatMessage \<Rightarrow> bytes option" where
  "toIOSBinaryPayload message =
     (let hasMentions = (case mentions message of Some ms \<Rightarrow> ms \<noteq> [] | None \<Rightarrow> False);
          flags = (if isRelay message then 0x01 else 0)
                  OR (if isPrivate message then 0x02 else 0)
                  OR (if truthy (originalSender message) then 0x04 else 0)
                  OR (if truthy (recipientNickname message) then 0x08 else 0)
                  OR (if senderPeerID message \<noteq> [] then 0x10 else 0)
                  OR (if hasMentions then 0x20 else 0)
                  OR (if truthy (channel message) then 0x40 else 0)
                  OR (if isEncrypted message then 0x80 else (0::int))
      in Some
        ([of_int flags]
         @ map (\<lambda>i. of_int (js_and (js_sar (msg_timestamp message) (i * 8)) 0xFF))
             [7, 6, 5, 4, 3, 2, 1, 0]
         @ addString (msg_id message)
         @ addString (sender message)
         @ (case encryptedContent message of
              Some ec \<Rightarrow> if isEncrypted message then addLength16 ec else addContent (content message)
            | None \<Rightarrow> addContent (content message))
         @ (if truthy (originalSender message) then addString (the (originalSender message)) else [])
         @ (if truthy (recipientNickname message) then addString (the (recipientNickname message))
            else [])
         @ (if senderPeerID message \<noteq> [] then addString (senderPeerID message) else [])
         @ (if hasMentions
            then of_nat (min (length (the (mentions message))) 255)
                 # concat (map addString (take 255 (the (mentions message))))
            else [])
         @ (if truthy (channel message) then addString (the (channel message)) else [])))"

text \<open>The decoder reads with a running offset. The two reading patterns that the source
  repeats are \<open>readString\<close> (a required field: a length that runs past the end fails the
  decode) and \<open>readOptional\<close> (an optional field: it is skipped when its flag is clear or
  no byte is left, and left undefined, with only the length byte consumed, when the
  length runs past the end).\<close>

definition readString :: "bytes \<Rightarrow> nat \<Rightarrow> (js_string \<times> nat) option" where
  "readString data offset =
     (if offset \<ge> length data then None
      else let n = unat (data ! offset); offset' = offset + 1
           in if offset' + n > length data then None
              else Some (TextDecoder_decode (take n (drop offset' data)), offset' + n))"

definition readOptional :: "bool \<Rightarrow> bytes \<Rightarrow> nat \<Rightarrow> js_string option \<times> nat" where
  "readOptional present data offset =
     (if present \<and> offset < length data then
        let n = unat (data ! offset); offset' = offset + 1
        in if offset' + n \<le> length data
           then (Some (TextDecoder_decode (take n (drop offset' data))), offset' + n)
           else (None, offset')
      else (None, offset))"

fun readMentions :: "bytes \<Rightarrow> nat \<Rightarrow> nat \<Rightarrow> js_string list \<Rightarrow> js_string list \<times> nat" where
  "readMentions data 0 offset acc = (acc, offset)"
| "readMentions data (Suc k) offset acc =
     (if offset < length data then
        let n = unat (data ! offset); offset' = offset + 1
        in if offset' + n \<le> length data
           then readMentions data k (offset' + n) (acc @ [TextDecoder_decode (take n (drop offset' data))])
           else readMentions data k offset' acc
      else (acc, offset))"

definition fromIOSBinaryPayload :: "bytes \<Rightarrow> BitchatMessage option" where
  "fromIOSBinaryPayload data =
     (if length data < 13 then None
      else
        let flags = uint (data ! 0);
            isRelay' = (flags AND 0x01 \<noteq> 0);
            isPrivate' = (flags AND 0x02 \<noteq> 0);
            hasOriginalSender = (flags AND 0x04 \<noteq> 0);
            hasRecipientNickname = (flags AND 0x08 \<noteq> 0);
            hasSenderPeerID = (flags AND 0x10 \<noteq> 0);
            hasMentions = (flags AND 0x20 \<noteq> 0);
            hasChannel = (flags AND 0x40 \<noteq> 0);
            isEncrypted' = (flags AND 0x80 \<noteq> 0);
            timestampMillis =
              foldl (\<lambda>t i. js_or (js_shl t 8) (uint (data ! i))) 0 [1, 2, 3, 4, 5, 6, 7, 8]
        in case readString data 9 of
             None \<Rightarrow> None
           | Some (id', offset1) \<Rightarrow>
          (case readString data offset1 of
             None \<Rightarrow> None
           | Some (sender', offset2) \<Rightarrow>
          (if offset2 + 2 > length data then None
           else
             let contentLength = nat (js_or (js_shl (uint (data ! offset2)) 8)
                                            (uint (data ! (offset2 + 1))));
                 offset3 = offset2 + 2
             in if offset3 + contentLength > length data then None
                else
                  let raw = take contentLength (drop offset3 data);
                      content' = (if isEncrypted' then [] else TextDecoder_decode raw);
                      encryptedContent' = (if isEncrypted' then Some raw else None);
                      offset4 = offset3 + contentLength;
                      (originalSender', offset5) = readOptional hasOriginalSender data offset4;
                      (recipientNickname', offset6) = readOptional hasRecipientNickname data offset5;
                      (senderPeerID', offset7) = readOptional hasSenderPeerID data offset6;
                      (mentions', offset8) =
                        (if hasMentions \<and> offset7 < length data
                         then (case readMentions data (unat (data ! offset7)) (offset7 + 1) [] of
                                 (ms, off) \<Rightarrow> (Some ms, off))
                         else (None, offset7));
                      (channel', offset9) = readOptional hasChannel data offset8
                  in Some \<lparr> msg_id = id', sender = sender', content = content',
                            msg_timestamp = timestampMillis, isRelay = isRelay',
                            originalSender = originalSender', isPrivate = isPrivate',
                            recipientNickname = recipientNickname',
                            senderPeerID = (case senderPeerID' of Some s \<Rightarrow> s | None \<Rightarrow> []),
                            mentions = mentions', channel = channel',
                            encryptedContent = encryptedContent', isEncrypted = isEncrypted',
                            deliveryStatus = None \<rparr>)))"

text \<open>
  \<open>toBinaryPayload\<close> and \<open>fromBinaryPayload\<close> try the compact format first. Their JSON
  branches (\<open>JSON.stringify\<close>, \<open>JSON.parse\<close> and the checks around them) are parameters
  of the model: \<open>jsonEncode\<close> and \<open>jsonDecode\<close> stand for those branches as a whole,
  \<open>None\<close> being the \<open>null\<close> they return on failure.
\<close>

definition toBinaryPayload ::
  "(BitchatMessage \<Rightarrow> bytes option) \<Rightarrow> BitchatMessage \<Rightarrow> bytes option" where
  "toBinaryPayload jsonEncode message =
     (case toIOSBinaryPayload message of Some iosPayload \<Rightarrow> Some iosPayload
      | None \<Rightarrow> jsonEncode message)"

definition fromBinaryPayload ::
  "(bytes \<Rightarrow> BitchatMessage option) \<Rightarrow> bytes \<Rightarrow> BitchatMessage option" where
  "fromBinaryPayload jsonDecode payload' =
     (case fromIOSBinaryPayload payload' of Some iosMessage \<Rightarrow> Some iosMessage
      | None \<Rightarrow> jsonDecode payload')"


section \<open>WebBluetoothMeshService\<close>

text \<open>
  The service object is a record of its tables. JavaScript \<open>Map\<close>s are association lists
  in insertion order (\<open>set\<close> on a present key keeps its place, as \<open>AList.update\<close> does),
  \<open>Set\<close>s are sets. Devices and characteristics are object identities; which GATT servers
  are connected is part of the state, since \<open>stopService\<close> and \<open>broadcastPacket\<close> read it.
  \<open>Date.now()\<close> and \<open>new Date()\<close> are the argument \<open>now\<close> of each handler, in milliseconds.

  What a handler does to the outside is the list of effects it returns, in order: calls
  of the delegate, calls of \<open>relayPacket\<close>, timers it starts, GATT writes and disconnects.
\<close>

type_synonym BluetoothDevice = nat
type_synonym Characteristic = nat

record FragmentMeta =
  originalType :: int
  totalFragments :: int
  meta_timestamp :: int

record MeshState =
  myPeerID :: js_string
  nickname :: js_string
  isScanning :: bool
  connectedDevices :: "(js_string \<times> BluetoothDevice) list"
  deviceCharacteristics :: "(BluetoothDevice \<times> Characteristic) list"
  gattConnected :: "BluetoothDevice set"
  activePeers :: "js_string set"
  peerNicknames :: "(js_string \<times> js_string) list"
  processedMessages :: "js_string set"
  incomingFragments :: "(js_string \<times> (int \<times> bytes) list) list"
  fragmentMetadata :: "(js_string \<times> FragmentMeta) list"

datatype Effect =
    DidReceiveMessage BitchatMessage
  | DidConnectToPeer js_string
  | DidDisconnectFromPeer js_string
  | DidUpdatePeerList
  | RelayPacket BitchatPacket
  | SetFragmentTimeout js_string js_string
  | WriteValue Characteristic bytes
  | GattDisconnect BluetoothDevice
  | Sleep int

definition fragmentTimeout :: int where "fragmentTimeout = 30000"
definition maxFragmentBytes :: nat where "maxFragmentBytes = 10 * 1024 * 1024"
definition maxConcurrentFragmentSessions :: nat where "maxConcurrentFragmentSessions = 50"
definition maxTTL :: int where "maxTTL = 7"

text \<open>\<open>BigInt.prototype.toString\<close> in a template string: decimal digits, with a sign.\<close>

fun decimalDigits :: "nat \<Rightarrow> js_string" where
  "decimalDigits n =
     (if n < 10 then [of_nat (48 + n)] else decimalDigits (n div 10) @ [of_nat (48 + n mod 10)])"

definition bigintToString :: "int \<Rightarrow> js_string" where
  "bigintToString k = (if k < 0 then 0x2D # decimalDigits (nat (- k)) else decimalDigits (nat k))"

text \<open>The key of the duplicate check:
  \<open>`${senderID}-${packet.timestamp}-${bytesToHex(packet.payload.slice(0, 8))}`\<close>.\<close>

definition packetKey :: "BitchatPacket \<Rightarrow> js_string \<Rightarrow> js_string" where
  "packetKey packet senderID' =
     senderID' @ [0x2D] @ bigintToString (timestamp packet) @ [0x2D]
       @ bytesToHex (slice (payload packet) 0 8)"

subsection \<open>Fragment sessions\<close>

definition dropSession :: "MeshState \<Rightarrow> js_string \<Rightarrow> MeshState" where
  "dropSession st fragID =
     st\<lparr> incomingFragments := AList.delete fragID (incomingFragments st),
         fragmentMetadata := AList.delete fragID (fragmentMetadata st) \<rparr>"

definition sessionBytes :: "(int \<times> bytes) list \<Rightarrow> nat" where
  "sessionBytes fragments = sum_list (map (\<lambda>(i, d). length d) fragments)"

text \<open>The loop of \<open>cleanupOldFragments\<close> that removes the oldest sessions while the
  buffered bytes exceed the budget.\<close>

fun evictOldest :: "nat \<Rightarrow> js_string list \<Rightarrow> MeshState \<Rightarrow> MeshState" where
  "evictOldest totalFragmentBytes [] st = st"
| "evictOldest totalFragmentBytes (fragID # sortedFragments) st =
     (if totalFragmentBytes > maxFragmentBytes then
        evictOldest
          (case map_of (incomingFragments st) fragID of
             Some fragments \<Rightarrow> totalFragmentBytes - sessionBytes fragments
           | None \<Rightarrow> totalFragmentBytes)
          sortedFragments (dropSession st fragID)
      else st)"

definition cleanupOldFragments :: "int \<Rightarrow> MeshState \<Rightarrow> MeshState" where
  "cleanupOldFragments now st =
     (let cutoffTime = now - fragmentTimeout;
          fragmentsToRemove =
            map fst (filter (\<lambda>(fragID, metadata). meta_timestamp metadata < cutoffTime)
                            (fragmentMetadata st));
          st1 = foldl dropSession st fragmentsToRemove;
          totalFragmentBytes =
            sum_list (map (\<lambda>(fragID, fragments). sessionBytes fragments) (incomingFragments st1))
      in if totalFragmentBytes > maxFragmentBytes
         then evictOldest totalFragmentBytes
                (map fst (sort_key (\<lambda>(fragID, metadata). meta_timestamp metadata)
                                   (fragmentMetadata st1)))
                st1
         else st1)"

text \<open>The 13-byte sub-header of a fragment payload and the chunk after it.\<close>

definition fragmentIDOf :: "bytes \<Rightarrow> js_string" where
  "fragmentIDOf payload' = bytesToHex (take 8 payload')"

definition fragmentIndex :: "bytes \<Rightarrow> int" where
  "fragmentIndex payload' = js_or (js_shl (uint (payload' ! 8)) 8) (uint (payload' ! 9))"

definition fragmentTotal :: "bytes \<Rightarrow> int" where
  "fragmentTotal payload' = js_or (js_shl (uint (payload' ! 10)) 8) (uint (payload' ! 11))"

definition fragmentOriginalType :: "bytes \<Rightarrow> int" where
  "fragmentOriginalType payload' = uint (payload' ! 12)"

definition fragmentDataOf :: "bytes \<Rightarrow> bytes" where
  "fragmentDataOf payload' = drop 13 payload'"

text \<open>``Initialize fragment collection if needed'': the result says whether the fragment
  may be stored; a refused fragment leaves the state as the sweep left it.\<close>

definition openFragmentSession ::
  "MeshState \<Rightarrow> int \<Rightarrow> js_string \<Rightarrow> int \<Rightarrow> int \<Rightarrow> MeshState \<times> bool" where
  "openFragmentSession st now fragmentID originalType' total' =
     (if map_of (incomingFragments st) fragmentID \<noteq> None then (st, True)
      else
        let st1 = (if length (incomingFragments st) \<ge> maxConcurrentFragmentSessions
                   then cleanupOldFragments now st else st)
        in if length (incomingFragments st) \<ge> maxConcurrentFragmentSessions
              \<and> length (incomingFragments st1) \<ge> maxConcurrentFragmentSessions
           then (st1, False)
           else (st1\<lparr> incomingFragments := AList.update fragmentID [] (incomingFragments st1),
                     fragmentMetadata :=
                       AList.update fragmentID
                         \<lparr> originalType = originalType', totalFragments = total',
                           meta_timestamp = now \<rparr>
                         (fragmentMetadata st1) \<rparr>, True))"

definition sessionFragments :: "MeshState \<Rightarrow> js_string \<Rightarrow> (int \<times> bytes) list" where
  "sessionFragments st fragmentID =
     (case map_of (incomingFragments st) fragmentID of Some fragments \<Rightarrow> fragments | None \<Rightarrow> [])"

definition storeFragment :: "MeshState \<Rightarrow> js_string \<Rightarrow> int \<Rightarrow> bytes \<Rightarrow> MeshState" where
  "storeFragment st fragmentID index fragmentData =
     st\<lparr> incomingFragments :=
           AList.update fragmentID
             (AList.update index fragmentData (sessionFragments st fragmentID))
             (incomingFragments st) \<rparr>"

text \<open>The reassembly loop: chunks 0 to \<open>total - 1\<close> in index order, \<open>None\<close> at the first
  missing index.\<close>

fun reassembleFrom :: "(int \<times> bytes) list \<Rightarrow> int \<Rightarrow> nat \<Rightarrow> bytes \<Rightarrow> bytes option" where
  "reassembleFrom fragments i 0 reassembledData = Some reassembledData"
| "reassembleFrom fragments i (Suc k) reassembledData =
     (case map_of fragments i of
        None \<Rightarrow> None
      | Some fragment \<Rightarrow> reassembleFrom fragments (i + 1) k (reassembledData @ fragment))"

definition reassemble :: "(int \<times> bytes) list \<Rightarrow> int \<Rightarrow> bytes option" where
  "reassemble fragments total' = reassembleFrom fragments 0 (nat total') []"

subsection \<open>Handlers\<close>

definition handleAnnounce :: "MeshState \<Rightarrow> BitchatPacket \<Rightarrow> js_string \<Rightarrow> MeshState \<times> Effect list" where
  "handleAnnounce st packet senderID' =
     (let nickname' = TextDecoder_decode (payload packet)
      in if js_length nickname' > 100 \<or> 0 \<in> set nickname'
            \<or> (\<exists>c \<in> set nickname'. c < 0x20 \<or> 0x7E < c)
         then (st, [])
         else (st\<lparr> peerNicknames := AList.update senderID' nickname' (peerNicknames st),
                   activePeers := insert senderID' (activePeers st) \<rparr>,
               [DidUpdatePeerList]))"

text \<open>\<open>recipientID.every((byte, index) => byte === BROADCAST[index])\<close>.\<close>

definition everyBroadcast :: "bytes \<Rightarrow> bool" where
  "everyBroadcast r = (length r \<le> length BROADCAST \<and> list_all (\<lambda>(b, c). b = c) (zip r BROADCAST))"

definition handleMessage ::
  "(bytes \<Rightarrow> BitchatMessage option) \<Rightarrow> MeshState \<Rightarrow> BitchatPacket \<Rightarrow> js_string
     \<Rightarrow> MeshState \<times> Effect list" where
  "handleMessage jsonDecode st packet senderID' =
     (case fromBinaryPayload jsonDecode (payload packet) of
        None \<Rightarrow> (st, [])
      | Some message \<Rightarrow>
          let isForUs = (case recipientID packet of
                           Some r \<Rightarrow> bytesToHex r = myPeerID st | None \<Rightarrow> False);
              isBroadcast = (case recipientID packet of
                               Some r \<Rightarrow> everyBroadcast r | None \<Rightarrow> True)
          in if isForUs \<or> isBroadcast
             then (st, [DidReceiveMessage (message\<lparr> senderPeerID := senderID' \<rparr>)])
             else (st, []))"

definition handleLeave :: "MeshState \<Rightarrow> BitchatPacket \<Rightarrow> js_string \<Rightarrow> MeshState \<times> Effect list" where
  "handleLeave st packet senderID' =
     (st\<lparr> activePeers := activePeers st - {senderID'},
          peerNicknames := AList.delete senderID' (peerNicknames st) \<rparr>,
      [DidDisconnectFromPeer senderID', DidUpdatePeerList])"

text \<open>
  The two workarounds for a lost second fragment look at fragment 0 of 2 and either
  find a chat message in it, or a whole packet of type MESSAGE, or nothing. What they
  find is computed first (\<open>immediateAttempt\<close> is the block ``fragment 0/2'',
  \<open>singleFragmentAttempt\<close> the block ``single fragment''); \<open>handleFragment\<close> then acts
  on it as the source does, in the same order.
\<close>

datatype Attempt = AsMessage BitchatMessage | AsPacket BitchatPacket | Nothing

definition immediateAttempt ::
  "(bytes \<Rightarrow> BitchatMessage option) \<Rightarrow> int \<Rightarrow> int \<Rightarrow> bytes \<Rightarrow> Attempt" where
  "immediateAttempt jsonDecode index total' fragmentData =
     (if index = 0 \<and> total' = 2 then
        (case fromBinaryPayload jsonDecode fragmentData of
           Some immediateMessage \<Rightarrow> AsMessage immediateMessage
         | None \<Rightarrow>
             (case decode fragmentData of
                None \<Rightarrow> Nothing
              | Some immediatePacket \<Rightarrow>
                  if type immediatePacket = MSG_MESSAGE then AsPacket immediatePacket else Nothing))
      else Nothing)"

definition singleFragmentAttempt ::
  "(bytes \<Rightarrow> BitchatMessage option) \<Rightarrow> (int \<times> bytes) list \<Rightarrow> int \<Rightarrow> int \<Rightarrow> Attempt" where
  "singleFragmentAttempt jsonDecode fragments index total' =
     (if length fragments = 1 \<and> total' = 2 \<and> index = 0 then
        (case map_of fragments 0 of
           None \<Rightarrow> Nothing
         | Some singleFragment \<Rightarrow>
             (case decode singleFragment of
                Some potentialPacket \<Rightarrow>
                  if type potentialPacket = MSG_MESSAGE then AsPacket potentialPacket
                  else (case fromBinaryPayload jsonDecode singleFragment of
                          Some message \<Rightarrow> AsMessage message | None \<Rightarrow> Nothing)
              | None \<Rightarrow>
                  (case fromBinaryPayload jsonDecode singleFragment of
                     Some message \<Rightarrow> AsMessage message | None \<Rightarrow> Nothing)))
      else Nothing)"

text \<open>
  \<open>handleReceivedPacket\<close> and \<open>handleFragment\<close> call each other: a completed reassembly,
  and the two attempts to read fragment 0 of 2 as a whole packet, hand a decoded packet
  back to \<open>handleReceivedPacket\<close>. The handlers that only log (delivery acknowledgement,
  read receipt, channel announcement, the Noise messages, unknown types) are the final
  branch of the dispatch. The callback of the two-second timer that \<open>handleFragment\<close>
  starts runs later, as an event of its own; here it is the effect \<open>SetFragmentTimeout\<close>.
\<close>


text \<open>The state and the chunks of the session after the first half of \<open>handleFragment\<close>:
  the session opened if needed (\<open>fragmentOpened\<close>), then the chunk stored under its index
  (\<open>fragmentStored\<close>, \<open>storedFragments\<close>); \<open>fragmentWaiting\<close> is the end of the incomplete
  branch, which starts the timer and sweeps.\<close>

definition fragmentOpened :: "MeshState \<Rightarrow> int \<Rightarrow> BitchatPacket \<Rightarrow> MeshState \<times> bool" where
  "fragmentOpened st now packet =
     openFragmentSession st now (fragmentIDOf (payload packet))
       (fragmentOriginalType (payload packet)) (fragmentTotal (payload packet))"

definition fragmentStored :: "MeshState \<Rightarrow> int \<Rightarrow> BitchatPacket \<Rightarrow> MeshState" where
  "fragmentStored st now packet =
     storeFragment (fst (fragmentOpened st now packet)) (fragmentIDOf (payload packet))
       (fragmentIndex (payload packet)) (fragmentDataOf (payload packet))"

definition storedFragments :: "MeshState \<Rightarrow> int \<Rightarrow> BitchatPacket \<Rightarrow> (int \<times> bytes) list" where
  "storedFragments st now packet =
     sessionFragments (fragmentStored st now packet) (fragmentIDOf (payload packet))"

definition fragmentWaiting ::
  "MeshState \<Rightarrow> int \<Rightarrow> BitchatPacket \<Rightarrow> js_string \<Rightarrow> MeshState \<times> Effect list" where
  "fragmentWaiting st now packet senderID' =
     (cleanupOldFragments now (fragmentStored st now packet),
      [SetFragmentTimeout (fragmentIDOf (payload packet)) senderID'])"



text \<open>The rank that decreases along the calls between the two handlers: whether the packet
  is a fragment, the number of sessions, the length of the payload, and which of the two
  functions is running.\<close>

definition isFragmentType :: "BitchatPacket \<Rightarrow> bool" where
  "isFragmentType p \<longleftrightarrow>
     type p = MSG_FRAGMENT_START \<or> type p = MSG_FRAGMENT_CONTINUE \<or> type p = MSG_FRAGMENT_END"

definition handlerRank ::
  "(bytes \<Rightarrow> BitchatMessage option) \<times> MeshState \<times> int \<times> BitchatPacket \<times> js_string
   + (bytes \<Rightarrow> BitchatMessage option) \<times> MeshState \<times> int \<times> BitchatPacket \<times> js_string
   \<Rightarrow> nat \<times> nat \<times> nat \<times> nat" where
  "handlerRank x =
     (case x of
        Inl (j, st, now, p, s) \<Rightarrow>
          (if isFragmentType p then 1 else 0, length (incomingFragments st), length (payload p), 1)
      | Inr (j, st, now, p, s) \<Rightarrow>
          (1, length (incomingFragments st), length (payload p), 0))"


subsection \<open>Facts for the termination of the packet handlers\<close>


lemma slice_length_le: "length (slice xs s e) \<le> length xs"
proof -
  have "length (take n (drop m xs)) \<le> length xs" for n m by simp
  then show ?thesis by (simp only: slice_def Let_def)
qed

lemma decode_payload_length:
  "decode d = Some q \<Longrightarrow> length (payload q) \<le> length d"
  by (auto simp: decode_def Let_def decompress_def slice_length_le split: if_splits)

lemma length_delete_le: "length (AList.delete k al) \<le> length al"
  by (simp add: AList.delete_eq)

lemma length_delete_less:
  "map_of al k \<noteq> None \<Longrightarrow> length (AList.delete k al) < length al"
proof -
  assume "map_of al k \<noteq> None"
  then obtain v where "(k, v) \<in> set al" by (auto dest: map_of_SomeD)
  then show ?thesis
    unfolding AList.delete_eq by (intro length_filter_less [of "(k, v)"]) auto
qed

lemma sessions_dropSession_le:
  "length (incomingFragments (dropSession st k)) \<le> length (incomingFragments st)"
  by (simp add: dropSession_def length_delete_le)

lemma sessions_foldl_dropSession_le:
  "length (incomingFragments (foldl dropSession st ks)) \<le> length (incomingFragments st)"
proof (induction ks arbitrary: st)
  case Nil
  show ?case by simp
next
  case (Cons k ks)
  have "length (incomingFragments (foldl dropSession (dropSession st k) ks))
        \<le> length (incomingFragments (dropSession st k))" by (rule Cons.IH)
  also have "\<dots> \<le> length (incomingFragments st)" by (rule sessions_dropSession_le)
  finally show ?case by simp
qed

lemma sessions_evictOldest_le:
  "length (incomingFragments (evictOldest n ks st)) \<le> length (incomingFragments st)"
proof (induction ks arbitrary: n st)
  case Nil
  show ?case by simp
next
  case (Cons k ks)
  show ?case
  proof (cases "n > maxFragmentBytes")
    case True
    let ?n' = "case map_of (incomingFragments st) k of
                 Some fragments \<Rightarrow> n - sessionBytes fragments | None \<Rightarrow> n"
    have "length (incomingFragments (evictOldest ?n' ks (dropSession st k)))
          \<le> length (incomingFragments (dropSession st k))" by (rule Cons.IH)
    also have "\<dots> \<le> length (incomingFragments st)" by (rule sessions_dropSession_le)
    finally show ?thesis using True by simp
  next
    case False
    then show ?thesis by simp
  qed
qed

lemma sessions_cleanup_le:
  "length (incomingFragments (cleanupOldFragments now st)) \<le> length (incomingFragments st)"
proof -
  let ?st1 = "foldl dropSession st
      (map fst (filter (\<lambda>(fragID, metadata). meta_timestamp metadata < now - fragmentTimeout)
                       (fragmentMetadata st)))"
  have a: "length (incomingFragments ?st1) \<le> length (incomingFragments st)"
    by (rule sessions_foldl_dropSession_le)
  have b: "\<And>n ks. length (incomingFragments (evictOldest n ks ?st1)) \<le> length (incomingFragments st)"
    using sessions_evictOldest_le a by (meson order_trans)
  show ?thesis
    using a b by (simp add: cleanupOldFragments_def Let_def)
qed

lemma immediateAttempt_packet:
  "immediateAttempt j i t d = AsPacket q \<Longrightarrow> type q = MSG_MESSAGE"
  by (auto simp: immediateAttempt_def split: if_splits option.splits)

lemma singleFragmentAttempt_packet:
  "singleFragmentAttempt j fs i t = AsPacket q \<Longrightarrow> type q = MSG_MESSAGE"
  by (auto simp: singleFragmentAttempt_def split: if_splits option.splits)

lemma message_not_fragment: "type q = MSG_MESSAGE \<Longrightarrow> \<not> isFragmentType q"
  by (simp add: isFragmentType_def MSG_MESSAGE_def MSG_FRAGMENT_START_def
      MSG_FRAGMENT_CONTINUE_def MSG_FRAGMENT_END_def)

lemma reassembled_rank:
  assumes len: "\<not> length (payload packet) < 13"
    and ok: "snd (fragmentOpened st now packet)"
    and full: "int (length (storedFragments st now packet)) = fragmentTotal (payload packet)"
    and re: "reassemble (storedFragments st now packet) (fragmentTotal (payload packet)) = Some d"
    and de: "decode d = Some q"
  shows "length (incomingFragments (dropSession (fragmentStored st now packet)
                                      (fragmentIDOf (payload packet))))
           < length (incomingFragments st)
         \<or> (length (incomingFragments (dropSession (fragmentStored st now packet)
                                      (fragmentIDOf (payload packet))))
           = length (incomingFragments st)
            \<and> length (payload q) < length (payload packet))"
proof -
  let ?fid = "fragmentIDOf (payload packet)"
  let ?o = "fst (fragmentOpened st now packet)"
  have del: "incomingFragments (dropSession (fragmentStored st now packet) ?fid)
             = AList.delete ?fid (incomingFragments ?o)"
    by (simp add: dropSession_def fragmentStored_def storeFragment_def delete_update_same)
  show ?thesis
  proof (cases "map_of (incomingFragments st) ?fid = None")
    case False
    then have "?o = st" by (simp add: fragmentOpened_def openFragmentSession_def)
    with False del show ?thesis by (simp add: length_delete_less)
  next
    case True
    define st1 where "st1 = (if length (incomingFragments st) \<ge> maxConcurrentFragmentSessions
                   then cleanupOldFragments now st else st)"
    have st1le: "length (incomingFragments st1) \<le> length (incomingFragments st)"
      by (simp add: st1_def sessions_cleanup_le)
    from True ok have o: "incomingFragments ?o = AList.update ?fid [] (incomingFragments st1)"
      by (auto simp: fragmentOpened_def openFragmentSession_def Let_def st1_def split: if_splits)
    have cnt: "length (incomingFragments (dropSession (fragmentStored st now packet) ?fid))
               \<le> length (incomingFragments st)"
      using st1le length_delete_le [of ?fid "incomingFragments st1"]
      by (simp add: del o delete_update_same)
    have fr: "storedFragments st now packet
              = [(fragmentIndex (payload packet), fragmentDataOf (payload packet))]"
      by (simp add: storedFragments_def sessionFragments_def fragmentStored_def storeFragment_def
          o update_conv')
    from full fr have t1: "fragmentTotal (payload packet) = 1" by simp
    from re fr t1 have "d = fragmentDataOf (payload packet)"
      by (auto simp: reassemble_def split: if_splits)
    with de have "length (payload q) \<le> length (payload packet) - 13"
      using decode_payload_length [of d q] by (simp add: fragmentDataOf_def)
    with len have "length (payload q) < length (payload packet)" by simp
    with cnt show ?thesis by linarith
  qed
qed


function handleReceivedPacket ::
    "(bytes \<Rightarrow> BitchatMessage option) \<Rightarrow> MeshState \<Rightarrow> int \<Rightarrow> BitchatPacket \<Rightarrow> js_string
       \<Rightarrow> MeshState \<times> Effect list"
  and handleFragment ::
    "(bytes \<Rightarrow> BitchatMessage option) \<Rightarrow> MeshState \<Rightarrow> int \<Rightarrow> BitchatPacket \<Rightarrow> js_string
       \<Rightarrow> MeshState \<times> Effect list"
where
  "handleReceivedPacket jsonDecode st now packet senderID' =
     (if ttl packet \<le> 0 then (st, [])
      else if packetKey packet senderID' \<in> processedMessages st then (st, [])
      else
        let st1 = st\<lparr> processedMessages := insert (packetKey packet senderID') (processedMessages st),
                       activePeers := insert senderID' (activePeers st) \<rparr>;
            handled =
              (if type packet = MSG_ANNOUNCE \<or> type packet = 0x02 then
                 handleAnnounce st1 packet senderID'
               else if type packet = MSG_MESSAGE then handleMessage jsonDecode st1 packet senderID'
               else if type packet = MSG_LEAVE then handleLeave st1 packet senderID'
               else if type packet = MSG_FRAGMENT_START \<or> type packet = MSG_FRAGMENT_CONTINUE
                       \<or> type packet = MSG_FRAGMENT_END then
                 handleFragment jsonDecode st1 now packet senderID'
               else (st1, []))
        in (fst handled, snd handled @ (if ttl packet > 1 then [RelayPacket packet] else [])))"
| "handleFragment jsonDecode st now packet senderID' =
     (if length (payload packet) < 13 then (st, [])
      else if \<not> snd (fragmentOpened st now packet) then (fst (fragmentOpened st now packet), [])
      else if int (length (storedFragments st now packet)) = fragmentTotal (payload packet) then
        (case reassemble (storedFragments st now packet) (fragmentTotal (payload packet)) of
           None \<Rightarrow> (fragmentStored st now packet, [])
         | Some reassembledData \<Rightarrow>
             (case decode reassembledData of
                Some reassembledPacket \<Rightarrow>
                  (let handled' =
                         handleReceivedPacket jsonDecode
                           (dropSession (fragmentStored st now packet) (fragmentIDOf (payload packet)))
                           now reassembledPacket senderID'
                   in (cleanupOldFragments now (fst handled'), snd handled'))
              | None \<Rightarrow> (cleanupOldFragments now (fragmentStored st now packet), [])))
      else
        (case immediateAttempt jsonDecode (fragmentIndex (payload packet))
                (fragmentTotal (payload packet)) (fragmentDataOf (payload packet)) of
           AsMessage immediateMessage \<Rightarrow>
             (dropSession (fragmentStored st now packet) (fragmentIDOf (payload packet)),
              [DidReceiveMessage (immediateMessage\<lparr> senderPeerID := senderID' \<rparr>)])
         | AsPacket immediatePacket \<Rightarrow>
             (let handled' =
                    handleReceivedPacket jsonDecode (fragmentStored st now packet) now
                      immediatePacket senderID'
              in (dropSession (fst handled') (fragmentIDOf (payload packet)), snd handled'))
         | Nothing \<Rightarrow>
             (case singleFragmentAttempt jsonDecode (storedFragments st now packet)
                     (fragmentIndex (payload packet)) (fragmentTotal (payload packet)) of
                AsPacket potentialPacket \<Rightarrow>
                  (let handled' =
                         handleReceivedPacket jsonDecode (fragmentStored st now packet) now
                           potentialPacket senderID'
                   in (dropSession (fst handled') (fragmentIDOf (payload packet)), snd handled'))
              | AsMessage message \<Rightarrow>
                  (dropSession (fragmentStored st now packet) (fragmentIDOf (payload packet)),
                   [DidReceiveMessage (message\<lparr> senderPeerID := senderID' \<rparr>)])
              | Nothing \<Rightarrow> fragmentWaiting st now packet senderID')))"
  by pat_completeness auto

termination
proof (relation "inv_image (less_than <*lex*> less_than <*lex*> less_than <*lex*> less_than)
                  handlerRank", goal_cases)
  case 1
  show ?case by (intro wf_inv_image wf_lex_prod wf_less_than)
next
  case (2 jsonDecode st now packet senderID' x)
  then show ?case by (simp add: handlerRank_def isFragmentType_def)
next
  case (3 jsonDecode st now packet senderID' d q)
  then have "length (incomingFragments (dropSession (fragmentStored st now packet)
                                      (fragmentIDOf (payload packet))))
           < length (incomingFragments st)
         \<or> (length (incomingFragments (dropSession (fragmentStored st now packet)
                                      (fragmentIDOf (payload packet))))
           = length (incomingFragments st)
            \<and> length (payload q) < length (payload packet))"
    by (intro reassembled_rank) simp_all
  then show ?case by (auto simp add: handlerRank_def)
next
  case (4 jsonDecode st now packet senderID' q)
  then show ?case
    by (simp add: handlerRank_def immediateAttempt_packet message_not_fragment)
next
  case (5 jsonDecode st now packet senderID' q)
  then show ?case
    by (simp add: handlerRank_def singleFragmentAttempt_packet message_not_fragment)
qed


declare handleReceivedPacket.simps [simp del] handleFragment.simps [simp del]


text \<open>The \<open>switch\<close> of \<open>handleReceivedPacket\<close> on its own, and the state in which it runs:
  the packet's key recorded and its sender marked active.\<close>

definition acceptPacket :: "MeshState \<Rightarrow> BitchatPacket \<Rightarrow> js_string \<Rightarrow> MeshState" where
  "acceptPacket st packet senderID' =
     st\<lparr> processedMessages := insert (packetKey packet senderID') (processedMessages st),
         activePeers := insert senderID' (activePeers st) \<rparr>"

definition dispatchPacket ::
  "(bytes \<Rightarrow> BitchatMessage option) \<Rightarrow> MeshState \<Rightarrow> int \<Rightarrow> BitchatPacket \<Rightarrow> js_string
     \<Rightarrow> MeshState \<times> Effect list" where
  "dispatchPacket jsonDecode st1 now packet senderID' =
     (if type packet = MSG_ANNOUNCE \<or> type packet = 0x02 then handleAnnounce st1 packet senderID'
      else if type packet = MSG_MESSAGE then handleMessage jsonDecode st1 packet senderID'
      else if type packet = MSG_LEAVE then handleLeave st1 packet senderID'
      else if type packet = MSG_FRAGMENT_START \<or> type packet = MSG_FRAGMENT_CONTINUE
              \<or> type packet = MSG_FRAGMENT_END then
        handleFragment jsonDecode st1 now packet senderID'
      else (st1, []))"


definition relayedPackets :: "Effect list \<Rightarrow> BitchatPacket list" where
  "relayedPackets effects = concat (map (\<lambda>e. case e of RelayPacket q \<Rightarrow> [q] | _ \<Rightarrow> []) effects)"

definition receivedMessages :: "Effect list \<Rightarrow> BitchatMessage list" where
  "receivedMessages effects =
     concat (map (\<lambda>e. case e of DidReceiveMessage m \<Rightarrow> [m] | _ \<Rightarrow> []) effects)"

text \<open>\<open>handleCharacteristicValueChanged\<close>: \<open>value'\<close> is the value of the characteristic,
  \<open>None\<close> when the event carries none.\<close>

definition handleCharacteristicValueChanged ::
  "(bytes \<Rightarrow> BitchatMessage option) \<Rightarrow> MeshState \<Rightarrow> int \<Rightarrow> bytes option
     \<Rightarrow> MeshState \<times> Effect list" where
  "handleCharacteristicValueChanged jsonDecode st now value' =
     (case value' of
        None \<Rightarrow> (st, [])
      | Some data \<Rightarrow>
          (case decode data of
             None \<Rightarrow> (st, [])
           | Some packet \<Rightarrow>
               let senderID' = bytesToHex (senderID packet)
               in if senderID' = myPeerID st then (st, [])
                  else handleReceivedPacket jsonDecode st now packet senderID'))"

subsection \<open>Sending and stopping\<close>

text \<open>\<open>broadcastPacket\<close> writes the encoded packet to the characteristic of every device whose
  GATT server is connected; a write that fails is caught and logged, so the effect is the
  attempt.\<close>

definition broadcastPacket :: "MeshState \<Rightarrow> BitchatPacket \<Rightarrow> Effect list" where
  "broadcastPacket st packet =
     (case encode packet of
        None \<Rightarrow> []
      | Some data \<Rightarrow>
          map (\<lambda>(device, characteristic). WriteValue characteristic data)
              (filter (\<lambda>(device, characteristic). device \<in> gattConnected st)
                      (deviceCharacteristics st)))"

definition leavePacket :: "MeshState \<Rightarrow> int \<Rightarrow> BitchatPacket" where
  "leavePacket st now =
     \<lparr> version = 1, type = MSG_LEAVE, ttl = 3, timestamp = now,
       senderID = hexToBytes (myPeerID st), recipientID = None,
       payload = TextEncoder_encode (nickname st), signature = None \<rparr>"

definition sendLeaveNotification :: "MeshState \<Rightarrow> int \<Rightarrow> Effect list" where
  "sendLeaveNotification st now = broadcastPacket st (leavePacket st now)"

text \<open>\<open>stopService\<close>. The \<open>gattserverdisconnected\<close> events that the disconnects raise are
  delivered afterwards, as events of their own.\<close>

definition stopService :: "MeshState \<Rightarrow> int \<Rightarrow> MeshState \<times> Effect list" where
  "stopService st now =
     (let leaving = (if length (connectedDevices st) > 0
                     then sendLeaveNotification st now @ [Sleep 100] else []);
          toDisconnect = filter (\<lambda>device. device \<in> gattConnected st)
                                (map snd (connectedDevices st))
      in (st\<lparr> isScanning := False,
               connectedDevices := [],
               deviceCharacteristics := [],
               activePeers := {},
               gattConnected := gattConnected st - set toDisconnect \<rparr>,
          leaving @ map GattDisconnect toDisconnect))"

subsection \<open>Example values\<close>

definition noJson :: "bytes \<Rightarrow> BitchatMessage option" where
  "noJson payload' = None"

definition exampleState :: MeshState where
  "exampleState =
     \<lparr> myPeerID = ascii ''a1b2c3d4e5f60708'', nickname = ascii ''alice'', isScanning = False,
       connectedDevices = [(ascii ''0102030405060708'', 1), (ascii ''1112131415161718'', 2)],
       deviceCharacteristics = [(1, 10), (2, 20)],
       gattConnected = {1, 2},
       activePeers = {}, peerNicknames = [], processedMessages = {},
       incomingFragments = [], fragmentMetadata = [] \<rparr>"

definition examplePeer :: js_string where
  "examplePeer = ascii ''0102030405060708''"

definition examplePacket :: "int \<Rightarrow> int \<Rightarrow> bytes \<Rightarrow> BitchatPacket" where
  "examplePacket type' ttl' payload' =
     \<lparr> version = 1, type = type', ttl = ttl', timestamp = 1700000000000,
       senderID = [1, 2, 3, 4, 5, 6, 7, 8], recipientID = None,
       payload = payload', signature = None \<rparr>"

definition noJsonEncode :: "BitchatMessage \<Rightarrow> bytes option" where
  "noJsonEncode message = None"

definition exampleMessage :: BitchatMessage where
  "exampleMessage =
     \<lparr> msg_id = ascii ''m-1'', sender = ascii ''alice'', content = ascii ''hello'',
       msg_timestamp = 1700000000000, isRelay = False, originalSender = None,
       isPrivate = False, recipientNickname = None,
       senderPeerID = ascii ''a1b2c3d4e5f60708'', mentions = Some [ascii ''bob''],
       channel = Some (ascii ''#general''), encryptedContent = None, isEncrypted = False,
       deliveryStatus = None \<rparr>"

definition sessionKey :: "nat \<Rightarrow> js_string" where
  "sessionKey i = bytesToHex [0, 0, 0, 0, 0, 0, 0, of_nat i]"

text \<open>Fifty sessions of one chunk each, created at the times 0 to 49, and the first
  fragment of a message with another identifier.\<close>

definition fiftySessions :: MeshState where
  "fiftySessions =
     exampleState
       \<lparr> incomingFragments := map (\<lambda>i. (sessionKey i, [(0, [0x41])])) [0..<50],
         fragmentMetadata :=
           map (\<lambda>i. (sessionKey i,
                      \<lparr> originalType = 4, totalFragments = 2, meta_timestamp = int i \<rparr>))
               [0..<50] \<rparr>"

definition newFragment :: BitchatPacket where
  "newFragment =
     examplePacket MSG_FRAGMENT_START 3
       ([0xFF, 0xFF, 0xFF, 0xFF, 0xFF, 0xFF, 0xFF, 0xFF] @ [0, 0, 0, 2, 4, 0x42])"


section \<open>The packet codec\<close>


lemma and_FF: "(k::int) AND 0xFF = take_bit 8 k"
proof -
  have "(0xFF::int) = mask 8" by (simp add: mask_eq_exp_minus_1)
  then show ?thesis by (simp add: take_bit_eq_mask)
qed

lemma uint_byte_of_int: "uint (of_int (k AND 0xFF) :: byte) = k AND 0xFF"
  by (simp add: and_FF uint_word_of_int take_bit_eq_mod)

lemma be_step:
  "push_bit 8 (take_bit n (drop_bit (k + 8) t)) OR take_bit 8 (drop_bit k t)
     = take_bit (n + 8) (drop_bit k (t::int))"
proof (rule bit_eqI)
  fix i
  show "bit (push_bit 8 (take_bit n (drop_bit (k + 8) t)) OR take_bit 8 (drop_bit k t)) i
        = bit (take_bit (n + 8) (drop_bit k t)) i"
  proof (cases "i < 8")
    case True
    then show ?thesis by (simp add: bit_simps)
  next
    case False
    then have "k + 8 + (i - 8) = k + i" by simp
    with False show ?thesis by (auto simp add: bit_simps)
  qed
qed

lemma ts_roundtrip:
  assumes "0 \<le> t" "t < 2 ^ 64"
  shows "push_bit 8 (push_bit 8 (push_bit 8 (push_bit 8 (push_bit 8 (push_bit 8 (push_bit 8 
            (take_bit 8 (drop_bit 56 t)) OR take_bit 8 (drop_bit 48 t)) OR take_bit 8 (drop_bit 40 t))
            OR take_bit 8 (drop_bit 32 t)) OR take_bit 8 (drop_bit 24 t)) OR take_bit 8 (drop_bit 16 t))
            OR take_bit 8 (drop_bit 8 t)) OR take_bit 8 t = (t::int)"
proof -
  have e: "take_bit 64 t = t" using assms by (simp add: take_bit_int_eq_self)
  show ?thesis
    using be_step [of 8 48 t] be_step [of 16 40 t] be_step [of 24 32 t] be_step [of 32 24 t]
      be_step [of 40 16 t] be_step [of 48 8 t] be_step [of 56 0 t] e
    by simp
qed


lemma uint_byte_small: "0 \<le> k \<Longrightarrow> k < 256 \<Longrightarrow> uint (of_int k :: byte) = k"
  by (simp add: uint_word_of_int take_bit_int_eq_self)

lemma length_padded [simp]: "length (padded n xs) = n"
  by (simp add: padded_def)

lemma takeWhile_replicate_zero: "takeWhile (\<lambda>b. b \<noteq> (0::byte)) (replicate k 0) = []"
  by (cases k) simp_all

lemma trim_padded: "length xs \<le> n \<Longrightarrow> trimNullBytes (padded n xs) = trimNullBytes xs"
proof (cases "\<forall>x\<in>set xs. x \<noteq> 0")
  case True
  assume "length xs \<le> n"
  moreover from True have tw: "takeWhile (\<lambda>b. b \<noteq> 0) xs = xs"
    by (simp add: takeWhile_eq_all_conv)
  ultimately show ?thesis using True
    by (simp add: padded_def trimNullBytes_def takeWhile_append2 takeWhile_replicate_zero tw)
next
  case False
  assume "length xs \<le> n"
  with False show ?thesis
    by (auto simp add: padded_def trimNullBytes_def takeWhile_append1)
qed

lemma trim_idem: "trimNullBytes (trimNullBytes xs) = trimNullBytes xs"
  by (simp add: trimNullBytes_def)

lemma slice_nonneg: "0 \<le> s \<Longrightarrow> s \<le> e \<Longrightarrow> slice xs s e = take (nat (e - s)) (drop (nat s) xs)"
  by (auto simp: slice_def Let_def min_def)

lemma len16: 
  assumes "0 \<le> n" "n < 65536"
  shows "push_bit 8 (take_bit 8 (drop_bit 8 n)) OR take_bit 8 n = (n::int)"
  using be_step [of 8 0 n] assms by (simp add: take_bit_int_eq_self)



lemma uint_tb: "uint (word_of_int (take_bit 8 x) :: byte) = take_bit 8 x"
  by (simp add: uint_word_of_int take_bit_eq_mod)

lemma ts_roundtrip_nf:
  assumes "0 \<le> t" "t < 18446744073709551616"
  shows "((((((push_bit 56 (take_bit 8 (drop_bit 56 t)) OR push_bit 48 (take_bit 8 (drop_bit 48 t)))
         OR push_bit 40 (take_bit 8 (drop_bit 40 t))) OR push_bit 32 (take_bit 8 (drop_bit 32 t)))
         OR push_bit 24 (take_bit 8 (drop_bit 24 t))) OR push_bit 16 (take_bit 8 (drop_bit 16 t)))
         OR push_bit 8 (take_bit 8 (drop_bit 8 t))) OR take_bit 8 t = (t::int)"
  using ts_roundtrip [of t] assms by (simp add: push_bit_or)

lemma nat_numeral_add_int: "nat (numeral k + int n) = numeral k + n"
  by (simp add: nat_add_distrib)

lemma drop_numeral_add: "drop (numeral k + n) xs = drop n (drop (numeral k) xs)"
  by (simp add: add.commute)

lemma padded_exact: "length xs = n \<Longrightarrow> padded n xs = xs"
  by (simp add: padded_def)

lemma take_exact: "length xs = n \<Longrightarrow> take n (xs @ ys) = xs"
  by simp


lemma encode_decode:
  assumes v: "valid_packet p"
  shows "\<exists>bs. encode p = Some bs \<and>
     decode bs = Some (p\<lparr> version := (if version p = 0 then 1 else version p),
                           senderID := trimNullBytes (senderID p),
                           recipientID := map_option trimNullBytes (recipientID p) \<rparr>)"
proof -
  have v'r: "0 \<le> version p" "version p < 256" using v by (auto simp: valid_packet_def)
  have flds: "0 \<le> type p" "type p < 256" "0 \<le> ttl p" "ttl p < 256" "0 \<le> timestamp p"
    "timestamp p < 18446744073709551616" "length (senderID p) \<le> 8" "length (payload p) \<le> 65535"
    using v by (auto simp: valid_packet_def)
  have r: "\<And>r. recipientID p = Some r \<Longrightarrow> length r \<le> 8"
    and s: "\<And>s. signature p = Some s \<Longrightarrow> length s = 64"
    using v by (auto simp: valid_packet_def)
  note sms = encode_def decode_def compress_def Let_def byteAt_def
      HEADER_SIZE_def SENDER_ID_SIZE_def RECIPIENT_ID_SIZE_def SIGNATURE_SIZE_def VERSION_def
      HAS_RECIPIENT_def HAS_SIGNATURE_def IS_COMPRESSED_def uint_byte_small uint_tb and_FF
      ts_roundtrip_nf len16 slice_nonneg trim_padded nat_numeral_add_int drop_numeral_add padded_exact
  show ?thesis
  proof (cases "recipientID p")
    case None
    note rn = None
    show ?thesis
    proof (cases "signature p")
      case None
      with rn flds v'r show ?thesis by (cases p) (simp add: sms)
    next
      case (Some sg)
      with rn flds v'r s [OF Some] show ?thesis by (cases p) (simp add: sms)
    qed
  next
    case (Some rc)
    note rs = Some
    show ?thesis
    proof (cases "signature p")
      case None
      with rs flds v'r r [OF rs] show ?thesis by (cases p) (simp add: sms)
    next
      case (Some sg)
      with rs flds v'r r [OF rs] s [OF Some] show ?thesis by (cases p) (simp add: sms)
    qed
  qed
qed


lemma or_byte:
  assumes "0 \<le> b" "b < 256"
  shows "push_bit 8 a OR b = 256 * a + (b::int)"
proof -
  have tb: "take_bit 8 b = b" using assms by (simp add: take_bit_int_eq_self)
  have "push_bit 8 a + take_bit 8 b = push_bit 8 a OR take_bit 8 b"
    by (rule disjunctive_add) (auto simp add: bit_simps)
  then show ?thesis by (simp add: tb push_bit_eq_mult)
qed

lemma uint_byte_bounds: "0 \<le> uint (w::byte)" "uint (w::byte) < 256"
  using uint_bounded [of w] by simp_all

lemma slice_pos:
  assumes "0 \<le> s" "0 \<le> e"
  shows "slice xs s e = take (nat (e - s)) (drop (nat s) xs)"
proof (cases "s < int (length xs)")
  case True
  show ?thesis
  proof (cases "e < int (length xs)")
    case True
    with assms \<open>s < int (length xs)\<close> show ?thesis by (simp add: slice_def Let_def min_def)
  next
    case False
    with assms True show ?thesis by (simp add: slice_def Let_def min_def nat_diff_distrib)
  qed
next
  case False
  with assms show ?thesis by (simp add: slice_def Let_def min_def)
qed

lemma decode_layout:
  assumes "21 \<le> length data"
  shows "let flags = uint (data ! 11);
             hasRecipient = (flags AND 1 \<noteq> 0);
             hasSignature = (flags AND 2 \<noteq> 0);
             isCompressed = (flags AND 4 \<noteq> 0);
             declared = 256 * uint (data ! 12) + uint (data ! 13);
             off = 22 + (if hasRecipient then 8 else 0) + (if isCompressed then 2 else 0);
             len = declared - (if isCompressed then 2 else 0)
         in \<exists>p. decode data = Some p
              \<and> payload p = take (nat len) (drop off data)
              \<and> (int (length data) \<le> int off + len \<longrightarrow> payload p = drop off data)
              \<and> (hasRecipient \<longrightarrow> recipientID p = Some (trimNullBytes (take 8 (drop 22 data))))
              \<and> (hasSignature \<longrightarrow> signature p = Some (take 64 (drop (nat (int off + len)) data)))"
  using assms
  apply (simp add: decode_def Let_def byteAt_def  HEADER_SIZE_def SENDER_ID_SIZE_def RECIPIENT_ID_SIZE_def SIGNATURE_SIZE_def 
      HAS_RECIPIENT_def HAS_SIGNATURE_def IS_COMPRESSED_def decompress_def or_byte uint_byte_bounds slice_pos)
  done


text \<open>
  Claim C1, as amended. For every valid packet (every field within its wire width: version,
  type and ttl one byte, an unsigned 64-bit timestamp, at most 8 bytes of sender and of
  recipient identifier, at most 65535 bytes of payload, a signature of exactly 64 bytes),
  \<open>decode (encode p)\<close> is \<open>p\<close> with the sender and recipient identifiers cut at their first
  zero byte and with a version of 0 replaced by 1, the default that \<open>encode\<close> writes for a
  version of 0; so the version round-trips exactly when it is not 0. Cutting at the first
  zero byte is idempotent.
\<close>

theorem packet_roundtrip_modulo_trimming:
  assumes "valid_packet p"
  shows "(\<exists>bs. encode p = Some bs \<and>
            decode bs = Some (p\<lparr> version := (if version p = 0 then VERSION else version p),
                                  senderID := trimNullBytes (senderID p),
                                  recipientID := map_option trimNullBytes (recipientID p) \<rparr>))
         \<and> (\<forall>x. trimNullBytes (trimNullBytes x) = trimNullBytes x)"
  using encode_decode [OF assms]
  by (cases "version p = 0") (auto simp add: VERSION_def trim_idem)

theorem packet_roundtrip_witness:
  "valid_packet \<lparr> version = 1, type = 4, ttl = 7, timestamp = 1700000000000,
                  senderID = [0xA1, 0xB2, 0, 0x04], recipientID = Some (replicate 8 0xFF),
                  payload = [1, 2, 3], signature = None \<rparr>
   \<and> (\<exists>bs. encode \<lparr> version = 1, type = 4, ttl = 7, timestamp = 1700000000000,
                  senderID = [0xA1, 0xB2, 0, 0x04], recipientID = Some (replicate 8 0xFF),
                  payload = [1, 2, 3], signature = None \<rparr> = Some bs
          \<and> decode bs = Some \<lparr> version = 1, type = 4, ttl = 7, timestamp = 1700000000000,
                  senderID = [0xA1, 0xB2], recipientID = Some (replicate 8 0xFF),
                  payload = [1, 2, 3], signature = None \<rparr>)"
proof -
  let ?p = "\<lparr> version = 1, type = 4, ttl = 7, timestamp = 1700000000000,
              senderID = [0xA1, 0xB2, 0, 0x04], recipientID = Some (replicate 8 0xFF),
              payload = [1, 2, 3], signature = None \<rparr>"
  have v: "valid_packet ?p" by (simp add: valid_packet_def)
  from packet_roundtrip_modulo_trimming [OF v] v show ?thesis
    by (simp add: trimNullBytes_def VERSION_def)
qed

text \<open>
  Claim C1 as stated fails for a packet of version 0, which fits the one-byte version
  field: \<open>encode\<close> writes \<open>packet.version || VERSION\<close>, so the packet comes back with
  version 1.
\<close>

theorem packet_roundtrip_version0_counterexample:
  "valid_packet \<lparr> version = 0, type = 4, ttl = 7, timestamp = 1700000000000,
                  senderID = [1, 2, 3, 4, 5, 6, 7, 8], recipientID = None,
                  payload = [0x68, 0x69], signature = None \<rparr>
   \<and> decode (the (encode \<lparr> version = 0, type = 4, ttl = 7, timestamp = 1700000000000,
                  senderID = [1, 2, 3, 4, 5, 6, 7, 8], recipientID = None,
                  payload = [0x68, 0x69], signature = None \<rparr>))
       = Some \<lparr> version = 1, type = 4, ttl = 7, timestamp = 1700000000000,
                  senderID = [1, 2, 3, 4, 5, 6, 7, 8], recipientID = None,
                  payload = [0x68, 0x69], signature = None \<rparr>"
proof -
  let ?p = "\<lparr> version = 0, type = 4, ttl = 7, timestamp = 1700000000000,
              senderID = [1, 2, 3, 4, 5, 6, 7, 8], recipientID = None,
              payload = [0x68, 0x69], signature = None \<rparr>"
  have v: "valid_packet ?p" by (simp add: valid_packet_def)
  from encode_decode [OF v] v show ?thesis
    by (auto simp add: trimNullBytes_def)
qed

text \<open>
  Claim C9. \<open>decode\<close> returns a packet for every buffer of at least 21 bytes. With the
  payload length declared in bytes 12 and 13 and the payload starting after the sender,
  the recipient (if flagged) and the original-size field (if flagged), the payload is the
  declared number of bytes from there or, when the buffer ends before that, whatever
  bytes remain; a flagged recipient and a flagged signature are likewise the bytes that
  are there, up to 8 and up to 64.
\<close>

theorem decode_total_from_21_bytes:
  assumes "21 \<le> length data"
  shows "let flags = uint (data ! 11);
             hasRecipient = (flags AND 1 \<noteq> 0);
             hasSignature = (flags AND 2 \<noteq> 0);
             isCompressed = (flags AND 4 \<noteq> 0);
             declared = 256 * uint (data ! 12) + uint (data ! 13);
             off = 22 + (if hasRecipient then 8 else 0) + (if isCompressed then 2 else 0);
             len = declared - (if isCompressed then 2 else 0)
         in \<exists>p. decode data = Some p
              \<and> payload p = take (nat len) (drop off data)
              \<and> (int (length data) \<le> int off + len \<longrightarrow> payload p = drop off data)
              \<and> (hasRecipient \<longrightarrow> recipientID p = Some (trimNullBytes (take 8 (drop 22 data))))
              \<and> (hasSignature \<longrightarrow> signature p = Some (take 64 (drop (nat (int off + len)) data)))"
  using decode_layout [OF assms] .

theorem decode_total_witness:
  "21 \<le> length ([1, 4, 7, 0, 0, 0, 0, 0, 0, 0, 5, 0, 0, 16, 1, 2, 3, 4, 5, 6, 7, 8, 0xAA, 0xBB, 0xCC] :: bytes)
   \<and> (\<exists>p. decode [1, 4, 7, 0, 0, 0, 0, 0, 0, 0, 5, 0, 0, 16, 1, 2, 3, 4, 5, 6, 7, 8, 0xAA, 0xBB, 0xCC] = Some p
          \<and> payload p = [0xAA, 0xBB, 0xCC])"
  using decode_total_from_21_bytes
          [of "[1, 4, 7, 0, 0, 0, 0, 0, 0, 0, 5, 0, 0, 16, 1, 2, 3, 4, 5, 6, 7, 8, 0xAA, 0xBB, 0xCC]"]
  by (simp add: Let_def)


section \<open>Receiving packets: TTL, duplicates, announcements\<close>


lemma relayedPackets_simps [simp]:
  "relayedPackets [] = []"
  "relayedPackets (xs @ ys) = relayedPackets xs @ relayedPackets ys"
  "relayedPackets (RelayPacket q # xs) = q # relayedPackets xs"
  "relayedPackets (DidReceiveMessage m # xs) = relayedPackets xs"
  "relayedPackets (DidUpdatePeerList # xs) = relayedPackets xs"
  "relayedPackets (DidDisconnectFromPeer a # xs) = relayedPackets xs"
  "relayedPackets (SetFragmentTimeout a b # xs) = relayedPackets xs"
  by (simp_all add: relayedPackets_def)

lemma relayed_handleAnnounce [simp]: "relayedPackets (snd (handleAnnounce st p s)) = []"
  by (simp add: handleAnnounce_def Let_def)

lemma relayed_handleMessage [simp]: "relayedPackets (snd (handleMessage j st p s)) = []"
  by (simp add: handleMessage_def Let_def split: option.splits)

lemma relayed_handleLeave [simp]: "relayedPackets (snd (handleLeave st p s)) = []"
  by (simp add: handleLeave_def)



lemma handleReceivedPacket_duplicate:
  "packetKey p s \<in> processedMessages st \<Longrightarrow> handleReceivedPacket j st now p s = (st, [])"
  by (subst handleReceivedPacket.simps) simp

lemma handleReceivedPacket_accepted:
  assumes "0 < ttl p" "packetKey p s \<notin> processedMessages st"
  shows "handleReceivedPacket j st now p s =
           (fst (dispatchPacket j (acceptPacket st p s) now p s),
            snd (dispatchPacket j (acceptPacket st p s) now p s)
              @ (if 1 < ttl p then [RelayPacket p] else []))"
  using assms
  by (subst handleReceivedPacket.simps) (simp add: Let_def dispatchPacket_def acceptPacket_def)


lemma own_ignored:
  assumes "decode data = Some packet" "bytesToHex (senderID packet) = myPeerID st"
  shows "handleCharacteristicValueChanged j st now (Some data) = (st, [])"
  using assms by (simp add: handleCharacteristicValueChanged_def)

lemma receivedMessages_simps [simp]:
  "receivedMessages [] = []"
  "receivedMessages (xs @ ys) = receivedMessages xs @ receivedMessages ys"
  "receivedMessages (RelayPacket q # xs) = receivedMessages xs"
  "receivedMessages (DidReceiveMessage m # xs) = m # receivedMessages xs"
  by (simp_all add: receivedMessages_def)

lemma duplicate_once:
  assumes "0 < ttl p" "type p = MSG_MESSAGE" "packetKey p s \<notin> processedMessages st"
    and "packetKey p' s' = packetKey p s"
    and "fromBinaryPayload j (payload p) = Some m"
    and "case recipientID p of Some r \<Rightarrow> bytesToHex r = myPeerID st \<or> everyBroadcast r | None \<Rightarrow> True"
  shows "receivedMessages (snd (handleReceivedPacket j st now p s)
            @ snd (handleReceivedPacket j (fst (handleReceivedPacket j st now p s)) now' p' s'))
           = [m\<lparr> senderPeerID := s \<rparr>]
         \<and> handleReceivedPacket j (fst (handleReceivedPacket j st now p s)) now' p' s'
           = (fst (handleReceivedPacket j st now p s), [])"
proof -
  have d: "dispatchPacket j (acceptPacket st p s) now p s
           = (acceptPacket st p s, [DidReceiveMessage (m\<lparr> senderPeerID := s \<rparr>)])"
    using assms(2,5,6)
    by (auto simp add: dispatchPacket_def handleMessage_def Let_def acceptPacket_def
        MSG_MESSAGE_def MSG_ANNOUNCE_def split: option.splits)
  have first: "handleReceivedPacket j st now p s
        = (acceptPacket st p s, DidReceiveMessage (m\<lparr> senderPeerID := s \<rparr>)
              # (if 1 < ttl p then [RelayPacket p] else []))"
    using handleReceivedPacket_accepted [OF assms(1,3), of j now] by (simp add: d)
  have "packetKey p' s' \<in> processedMessages (acceptPacket st p s)"
    using assms(4) by (simp add: acceptPacket_def)
  then have second: "handleReceivedPacket j (acceptPacket st p s) now' p' s' = (acceptPacket st p s, [])"
    by (rule handleReceivedPacket_duplicate)
  show ?thesis by (simp add: first second)
qed



definition printable :: "byte \<Rightarrow> bool" where
  "printable b \<longleftrightarrow> 0x20 \<le> b \<and> b \<le> 0x7E"

lemma byte_order_facts:
  fixes b :: byte
  shows "b \<le> 0x7E \<Longrightarrow> b \<le> 0x7F" "b \<le> 0x7E \<Longrightarrow> \<not> 0x80 \<le> b" "b \<le> 0x7E \<Longrightarrow> \<not> 0xF0 \<le> b"
    "\<not> b \<le> 0x7F \<Longrightarrow> \<not> b \<le> 0x7E" "\<not> 0x20 \<le> b \<Longrightarrow> b < 0x20" "\<not> b \<le> 0x7E \<Longrightarrow> 0x7E < b"
  by (simp_all add: word_le_nat_alt word_less_nat_alt)

lemma replacement_unprintable: "\<exists>c \<in> set REPLACEMENT. \<not> printable c"
  by (simp add: REPLACEMENT_def printable_def)

lemma utf8_decode_unprintable:
  "(needed \<noteq> 0 \<and> (\<exists>c \<in> set seen. \<not> printable c)) \<or> (\<exists>b \<in> set bs. \<not> printable b)
   \<Longrightarrow> \<exists>c \<in> set (utf8_decode needed seen lower upper bs). \<not> printable c"
proof (induction needed seen lower upper bs rule: utf8_decode.induct)
  case (1 needed seen lower upper)
  then show ?case using replacement_unprintable by auto
next
  case (2 needed seen lower upper b bs)
  show ?case
  proof (cases "needed = 0")
    case True
    note n0 = True
    show ?thesis
    proof (cases "b \<le> 0x7F")
      case True
      with n0 2 show ?thesis by auto
    next
      case False
      then have nb: "\<not> printable b" by (auto simp: printable_def byte_order_facts)
      with n0 False 2 replacement_unprintable show ?thesis by auto
    qed
  next
    case False
    note n1 = False
    show ?thesis
    proof (cases "b < lower \<or> upper < b")
      case True
      with n1 replacement_unprintable show ?thesis by auto
    next
      case False
      note inr = False
      show ?thesis
      proof (cases "needed = 1")
        case True
        with n1 inr 2 show ?thesis by auto
      next
        case False
        with n1 inr 2 show ?thesis by auto
      qed
    qed
  qed
qed

lemma utf8_decode_printable:
  "\<forall>b \<in> set bs. printable b \<Longrightarrow> utf8_decode 0 [] 0x80 0xBF bs = bs"
proof (induction bs)
  case Nil
  show ?case by simp
next
  case (Cons b bs)
  then have "b \<le> 0x7F" by (auto simp: printable_def byte_order_facts)
  with Cons show ?case by simp
qed

lemma js_length_printable: "\<forall>b \<in> set bs. printable b \<Longrightarrow> js_length bs = length bs"
proof (induction bs)
  case Nil
  show ?case by (simp add: js_length_def)
next
  case (Cons b bs)
  then have "b \<le> 0x7E" by (simp add: printable_def)
  then have "\<not> 0x80 \<le> b" "\<not> 0xF0 \<le> b" by (auto simp: byte_order_facts)
  with Cons show ?case by (simp add: js_length_def)
qed

lemma handleAnnounce_rejects:
  assumes "length (stripBOM (payload p)) > 100
           \<or> (\<exists>b \<in> set (stripBOM (payload p)). b < 0x20 \<or> 0x7E < b)"
  shows "handleAnnounce st p s = (st, [])"
proof (cases "\<forall>b \<in> set (stripBOM (payload p)). printable b")
  case True
  then have "TextDecoder_decode (payload p) = stripBOM (payload p)"
    by (simp add: TextDecoder_decode_def utf8_decode_printable)
  moreover from True assms have "length (stripBOM (payload p)) > 100"
    by (auto simp: printable_def)
  ultimately show ?thesis using True
    by (simp add: handleAnnounce_def Let_def js_length_printable)
next
  case False
  then have "\<exists>c \<in> set (TextDecoder_decode (payload p)). \<not> printable c"
    unfolding TextDecoder_decode_def by (intro utf8_decode_unprintable) auto
  then have "\<exists>c \<in> set (TextDecoder_decode (payload p)). c < 0x20 \<or> 0x7E < c"
    by (auto simp: printable_def dest: byte_order_facts(5,6))
  then show ?thesis
    by (auto simp add: handleAnnounce_def Let_def)
qed

lemma announce_rejected:
  assumes "type p = MSG_ANNOUNCE" "0 < ttl p" "packetKey p s \<notin> processedMessages st"
    and "length (stripBOM (payload p)) > 100
           \<or> (\<exists>b \<in> set (stripBOM (payload p)). b < 0x20 \<or> 0x7E < b)"
  shows "handleReceivedPacket j st now p s
           = (acceptPacket st p s, if 1 < ttl p then [RelayPacket p] else [])"
  using handleReceivedPacket_accepted [OF assms(2,3), of j now] assms(1)
    handleAnnounce_rejects [OF assms(4)]
  by (simp add: dispatchPacket_def)


lemma example_fresh [simp]: "k \<notin> processedMessages exampleState" "activePeers exampleState = {}"
  by (simp_all add: exampleState_def)

lemma examplePacket_fields [simp]:
  "ttl (examplePacket t l pl) = l" "type (examplePacket t l pl) = t"
  "payload (examplePacket t l pl) = pl" "recipientID (examplePacket t l pl) = None"
  by (simp_all add: examplePacket_def)

lemma examplePacket_key [simp]:
  "packetKey (examplePacket t l pl) s = packetKey (examplePacket t' l' pl) s"
  by (simp add: packetKey_def examplePacket_def)

lemma thirteen_zero_bytes:
  "fromBinaryPayload noJson (replicate 13 0)
     = Some \<lparr> msg_id = [], sender = [], content = [], msg_timestamp = 0, isRelay = False,
              originalSender = None, isPrivate = False, recipientNickname = None,
              senderPeerID = [], mentions = None, channel = None, encryptedContent = None,
              isEncrypted = False, deliveryStatus = None \<rparr>"
  by code_simp

lemma own_packet_bytes:
  "decode [1, 4, 7, 0, 0, 1, 0x8B, 0xCF, 0xE5, 0x68, 0, 0, 0, 0,
           0xA1, 0xB2, 0xC3, 0xD4, 0xE5, 0xF6, 0x07, 0x08]
     = Some \<lparr> version = 1, type = 4, ttl = 7, timestamp = 1700000000000,
              senderID = [0xA1, 0xB2, 0xC3, 0xD4, 0xE5, 0xF6, 0x07, 0x08], recipientID = None,
              payload = [], signature = None \<rparr>"
  by code_simp

lemma own_peer_hex:
  "bytesToHex [0xA1, 0xB2, 0xC3, 0xD4, 0xE5, 0xF6, 0x07, 0x08] = myPeerID exampleState"
  by code_simp

lemma long_payload: "stripBOM (replicate 101 0x41) = replicate 101 0x41"
  by code_simp




text \<open>
  Claim C4. Let a MESSAGE packet be accepted (ttl above 0, key not yet processed) and
  delivered (its payload decodes to a message \<open>m\<close>, and it is addressed to this node or to
  everyone). A second reception with the same key, whatever its ttl, its path and the
  time, changes nothing and has no effect: it is neither dispatched nor relayed. Over the
  two receptions the delegate receives exactly one message, \<open>m\<close> attributed to the sender.
\<close>

theorem duplicate_message_delivered_once:
  assumes "0 < ttl p" "type p = MSG_MESSAGE" "packetKey p s \<notin> processedMessages st"
    and "packetKey p' s' = packetKey p s"
    and "fromBinaryPayload j (payload p) = Some m"
    and "case recipientID p of Some r \<Rightarrow> bytesToHex r = myPeerID st \<or> everyBroadcast r | None \<Rightarrow> True"
  shows "receivedMessages (snd (handleReceivedPacket j st now p s)
            @ snd (handleReceivedPacket j (fst (handleReceivedPacket j st now p s)) now' p' s'))
           = [m\<lparr> senderPeerID := s \<rparr>]
         \<and> handleReceivedPacket j (fst (handleReceivedPacket j st now p s)) now' p' s'
           = (fst (handleReceivedPacket j st now p s), [])"
  using duplicate_once [OF assms] .

theorem duplicate_message_witness:
  "receivedMessages
     (snd (handleReceivedPacket noJson exampleState 0
             (examplePacket MSG_MESSAGE 7 (replicate 13 0)) examplePeer)
      @ snd (handleReceivedPacket noJson
               (fst (handleReceivedPacket noJson exampleState 0
                       (examplePacket MSG_MESSAGE 7 (replicate 13 0)) examplePeer))
               50 (examplePacket MSG_MESSAGE 5 (replicate 13 0)) examplePeer))
     = [\<lparr> msg_id = [], sender = [], content = [], msg_timestamp = 0, isRelay = False,
          originalSender = None, isPrivate = False, recipientNickname = None,
          senderPeerID = [], mentions = None, channel = None,
          encryptedContent = None, isEncrypted = False, deliveryStatus = None \<rparr>
        \<lparr> senderPeerID := examplePeer \<rparr>]
   \<and> handleReceivedPacket noJson
         (fst (handleReceivedPacket noJson exampleState 0
                 (examplePacket MSG_MESSAGE 7 (replicate 13 0)) examplePeer))
         50 (examplePacket MSG_MESSAGE 5 (replicate 13 0)) examplePeer
     = (fst (handleReceivedPacket noJson exampleState 0
               (examplePacket MSG_MESSAGE 7 (replicate 13 0)) examplePeer), [])"
proof -
  have m: "fromBinaryPayload noJson (payload (examplePacket MSG_MESSAGE 7 (replicate 13 0)))
     = Some \<lparr> msg_id = [], sender = [], content = [], msg_timestamp = 0, isRelay = False,
              originalSender = None, isPrivate = False, recipientNickname = None,
              senderPeerID = [], mentions = None, channel = None, encryptedContent = None,
              isEncrypted = False, deliveryStatus = None \<rparr>"
    using thirteen_zero_bytes by simp
  show ?thesis
    by (rule duplicate_message_delivered_once [OF _ _ _ _ m]) simp_all
qed

text \<open>
  Claim C7, as amended. An ANNOUNCE packet whose payload, once a leading byte order mark
  (EF BB BF, which the text decoder drops) is set aside, is longer than 100 bytes or
  contains a byte outside printable ASCII (0x20 to 0x7E; the null byte is one) is rejected
  by \<open>handleAnnounce\<close>: no nickname is recorded and no peer-list update is signalled. The
  receive path has by then recorded the packet's key and added the sender to the active
  peers, as it does for every accepted packet before the dispatch, and it relays the
  packet when its ttl is above 1.
\<close>

theorem invalid_announce_rejected:
  assumes "type p = MSG_ANNOUNCE" "0 < ttl p" "packetKey p s \<notin> processedMessages st"
    and "length (stripBOM (payload p)) > 100
           \<or> (\<exists>b \<in> set (stripBOM (payload p)). b < 0x20 \<or> 0x7E < b)"
  shows "handleReceivedPacket j st now p s
           = (acceptPacket st p s, if 1 < ttl p then [RelayPacket p] else [])
         \<and> peerNicknames (fst (handleReceivedPacket j st now p s)) = peerNicknames st
         \<and> DidUpdatePeerList \<notin> set (snd (handleReceivedPacket j st now p s))
         \<and> activePeers (fst (handleReceivedPacket j st now p s)) = insert s (activePeers st)"
  using announce_rejected [OF assms] by (simp add: acceptPacket_def)

theorem invalid_announce_witness:
  "handleReceivedPacket noJson exampleState 0
       (examplePacket MSG_ANNOUNCE 3 (replicate 101 0x41)) examplePeer
     = (acceptPacket exampleState (examplePacket MSG_ANNOUNCE 3 (replicate 101 0x41)) examplePeer,
        [RelayPacket (examplePacket MSG_ANNOUNCE 3 (replicate 101 0x41))])"
  using invalid_announce_rejected
          [of "examplePacket MSG_ANNOUNCE 3 (replicate 101 0x41)" examplePeer exampleState noJson 0]
  by (simp add: long_payload)

text \<open>
  Claim C7 as stated fails on the active-peer set: an ANNOUNCE of 101 printable bytes
  from a sender not yet known is rejected by \<open>handleAnnounce\<close>, and the sender is an active
  peer afterwards, where no peer was active before.
\<close>

theorem invalid_announce_counterexample:
  "length (payload (examplePacket MSG_ANNOUNCE 1 (replicate 101 0x41))) = 101
   \<and> activePeers exampleState = {}
   \<and> activePeers (fst (handleReceivedPacket noJson exampleState 0
                          (examplePacket MSG_ANNOUNCE 1 (replicate 101 0x41)) examplePeer))
       = {examplePeer}"
  using announce_rejected
          [of "examplePacket MSG_ANNOUNCE 1 (replicate 101 0x41)" examplePeer exampleState noJson 0]
  by (simp add: long_payload acceptPacket_def)

text \<open>
  Claim C10. A received buffer that decodes to a packet whose sender identifier, in
  hexadecimal, is the node's own peer identifier is ignored by
  \<open>handleCharacteristicValueChanged\<close>: the state is unchanged (no key is recorded) and
  there is no effect (no handler runs, no delegate is called, nothing is relayed),
  whatever the type and the ttl of the packet.
\<close>

theorem own_packets_discarded:
  assumes "decode data = Some packet" "bytesToHex (senderID packet) = myPeerID st"
  shows "handleCharacteristicValueChanged j st now (Some data) = (st, [])"
  using own_ignored [OF assms] .

theorem own_packets_witness:
  "handleCharacteristicValueChanged noJson exampleState 0
     (Some [1, 4, 7, 0, 0, 1, 0x8B, 0xCF, 0xE5, 0x68, 0, 0, 0, 0,
            0xA1, 0xB2, 0xC3, 0xD4, 0xE5, 0xF6, 0x07, 0x08])
   = (exampleState, [])"
  using own_packets_discarded [OF own_packet_bytes, of exampleState noJson 0] own_peer_hex
  by simp


section \<open>Stopping the service\<close>


lemma encode_Some: "\<exists>bs. encode p = Some bs"
  by (simp add: encode_def Let_def)

lemma stop_tables:
  "connectedDevices (fst (stopService st now)) = []"
  "deviceCharacteristics (fst (stopService st now)) = []"
  "activePeers (fst (stopService st now)) = {}"
  "processedMessages (fst (stopService st now)) = processedMessages st"
  "incomingFragments (fst (stopService st now)) = incomingFragments st"
  "fragmentMetadata (fst (stopService st now)) = fragmentMetadata st"
  by (simp_all add: stopService_def Let_def)

lemma stop_links:
  "d \<in> snd ` set (connectedDevices st) \<Longrightarrow> d \<notin> gattConnected (fst (stopService st now))"
  by (auto simp add: stopService_def Let_def)

lemma stop_leave:
  assumes "connectedDevices st \<noteq> []" "encode (leavePacket st now) = Some data"
    "(d, c) \<in> set (deviceCharacteristics st)" "d \<in> gattConnected st"
  shows "WriteValue c data \<in> set (snd (stopService st now))"
  using assms
  by (force simp add: stopService_def Let_def sendLeaveNotification_def broadcastPacket_def)

lemma stop_order:
  "\<exists>writes disconnects.
      snd (stopService st now) = writes @ map GattDisconnect disconnects
      \<and> (\<forall>e \<in> set writes. \<forall>d. e \<noteq> GattDisconnect d)
      \<and> set disconnects = {d \<in> snd ` set (connectedDevices st). d \<in> gattConnected st}"
proof -
  let ?w = "(if length (connectedDevices st) > 0
             then sendLeaveNotification st now @ [Sleep 100] else [])"
  let ?d = "filter (\<lambda>device. device \<in> gattConnected st) (map snd (connectedDevices st))"
  have "snd (stopService st now) = ?w @ map GattDisconnect ?d"
    by (simp add: stopService_def Let_def)
  moreover have "\<forall>e \<in> set ?w. \<forall>d. e \<noteq> GattDisconnect d"
    by (auto simp add: sendLeaveNotification_def broadcastPacket_def split: option.splits)
  moreover have "set ?d = {d \<in> snd ` set (connectedDevices st). d \<in> gattConnected st}"
    by auto
  ultimately show ?thesis by blast
qed

lemma example_leave_bytes:
  "encode (leavePacket exampleState 0)
     = Some [1, 3, 3, 0, 0, 0, 0, 0, 0, 0, 0, 0, 0, 5,
             0xA1, 0xB2, 0xC3, 0xD4, 0xE5, 0xF6, 0x07, 0x08, 0x61, 0x6C, 0x69, 0x63, 0x65]"
  by code_simp

lemma stop_keeps_key:
  "packetKey (examplePacket MSG_LEAVE 1 []) examplePeer
     \<in> processedMessages (fst (stopService
           (fst (handleReceivedPacket noJson exampleState 0 (examplePacket MSG_LEAVE 1 []) examplePeer))
           100))"
  by (simp add: stop_tables handleReceivedPacket_accepted dispatchPacket_def handleLeave_def
      acceptPacket_def MSG_LEAVE_def MSG_ANNOUNCE_def MSG_MESSAGE_def)


text \<open>
  Claim C8, as amended. After \<open>stopService\<close>: when at least one device is connected, the
  LEAVE packet has been written to the characteristic of every device whose GATT server
  is connected, and every such write comes before the first disconnect; every connected
  device has been disconnected; and the tables of connected devices, of device
  characteristics and of active peers are empty. The set of processed packet keys and
  the two fragment tables are what they were before: \<open>stopService\<close> does not touch them.
\<close>

theorem stopService_teardown:
  "connectedDevices (fst (stopService st now)) = []
   \<and> deviceCharacteristics (fst (stopService st now)) = []
   \<and> activePeers (fst (stopService st now)) = {}
   \<and> (\<forall>d \<in> snd ` set (connectedDevices st). d \<notin> gattConnected (fst (stopService st now)))
   \<and> (connectedDevices st \<noteq> [] \<longrightarrow>
        (\<exists>data. encode (leavePacket st now) = Some data
           \<and> (\<forall>(d, c) \<in> set (deviceCharacteristics st).
                 d \<in> gattConnected st \<longrightarrow> WriteValue c data \<in> set (snd (stopService st now)))))
   \<and> (\<exists>writes disconnects.
        snd (stopService st now) = writes @ map GattDisconnect disconnects
        \<and> (\<forall>e \<in> set writes. \<forall>d. e \<noteq> GattDisconnect d)
        \<and> set disconnects = {d \<in> snd ` set (connectedDevices st). d \<in> gattConnected st})
   \<and> processedMessages (fst (stopService st now)) = processedMessages st
   \<and> incomingFragments (fst (stopService st now)) = incomingFragments st
   \<and> fragmentMetadata (fst (stopService st now)) = fragmentMetadata st"
proof -
  obtain data where d: "encode (leavePacket st now) = Some data"
    using encode_Some by blast
  have "connectedDevices st \<noteq> [] \<longrightarrow>
        (\<exists>data. encode (leavePacket st now) = Some data
           \<and> (\<forall>(d, c) \<in> set (deviceCharacteristics st).
                 d \<in> gattConnected st \<longrightarrow> WriteValue c data \<in> set (snd (stopService st now))))"
    using d stop_leave [of st now data] by blast
  then show ?thesis
    using stop_tables [of st now] stop_links [of _ st now] stop_order [of st now] by blast
qed


theorem stopService_witness:
  "connectedDevices exampleState \<noteq> []
   \<and> WriteValue 10 [1, 3, 3, 0, 0, 0, 0, 0, 0, 0, 0, 0, 0, 5,
             0xA1, 0xB2, 0xC3, 0xD4, 0xE5, 0xF6, 0x07, 0x08, 0x61, 0x6C, 0x69, 0x63, 0x65]
       \<in> set (snd (stopService exampleState 0))
   \<and> 1 \<notin> gattConnected (fst (stopService exampleState 0))"
  using stopService_teardown [of exampleState 0] example_leave_bytes
  by (auto simp add: exampleState_def)


text \<open>
  Claim C8 as stated fails on the duplicate cache: the key of a packet processed before
  the stop is still in \<open>processedMessages\<close> after it.
\<close>

theorem stopService_counterexample:
  "packetKey (examplePacket MSG_LEAVE 1 []) examplePeer
     \<in> processedMessages (fst (stopService
           (fst (handleReceivedPacket noJson exampleState 0 (examplePacket MSG_LEAVE 1 []) examplePeer))
           100))"
  using stop_keeps_key .

section \<open>The message codec at a present-day timestamp\<close>

lemma message_bytes:
  "take 8 (drop 1 (the (toBinaryPayload noJsonEncode exampleMessage)))
     = [0xCF, 0xE5, 0x68, 0, 0xCF, 0xE5, 0x68, 0]"
  by code_simp

lemma msg_eval:
  "fromBinaryPayload noJson (the (toBinaryPayload noJsonEncode exampleMessage))
     = Some (exampleMessage\<lparr> msg_timestamp := - 807049216 \<rparr>)"
  by code_simp


text \<open>
  Claim C2 fails on the timestamp. The encoder shifts the millisecond count with \<open>>>\<close>,
  which works on 32 bits with the shift count taken modulo 32, and the decoder rebuilds
  it with \<open><<\<close> and \<open>|\<close> on 32 bits: the eight bytes written are the low four bytes twice,
  and the value read back is their signed 32-bit reading. For the message below, sent at
  1700000000000 ms (14 November 2023), the bytes are CF E5 68 00 CF E5 68 00 and the
  decoded timestamp is -807049216 ms; every other field comes back as it was.
\<close>

theorem message_timestamp_truncated:
  "msg_timestamp exampleMessage = 1700000000000
   \<and> isEncrypted exampleMessage = False
   \<and> take 8 (drop 1 (the (toBinaryPayload noJsonEncode exampleMessage)))
       = [0xCF, 0xE5, 0x68, 0, 0xCF, 0xE5, 0x68, 0]
   \<and> fromBinaryPayload noJson (the (toBinaryPayload noJsonEncode exampleMessage))
       = Some (exampleMessage\<lparr> msg_timestamp := - 807049216 \<rparr>)"
  using message_bytes msg_eval by (simp add: exampleMessage_def)


section \<open>The bound on fragment sessions\<close>


lemma foldl_dropSession_nil: "foldl dropSession st [] = st"
  by simp

lemma cleanup_nothing:
  assumes "\<forall>(k, m) \<in> set (fragmentMetadata st). \<not> meta_timestamp m < now - fragmentTimeout"
    and "sum_list (map (\<lambda>(fragID, fragments). sessionBytes fragments) (incomingFragments st))
           \<le> maxFragmentBytes"
  shows "cleanupOldFragments now st = st"
proof -
  have "filter (\<lambda>(fragID, metadata). meta_timestamp metadata < now - fragmentTimeout)
               (fragmentMetadata st) = []"
    using assms(1) by (auto simp add: filter_empty_conv)
  then show ?thesis using assms(2)
    by (simp add: cleanupOldFragments_def Let_def)
qed

lemma fragment_refused:
  assumes "13 \<le> length (payload p)"
    and "map_of (incomingFragments st) (fragmentIDOf (payload p)) = None"
    and "maxConcurrentFragmentSessions \<le> length (incomingFragments st)"
    and "maxConcurrentFragmentSessions \<le> length (incomingFragments (cleanupOldFragments now st))"
  shows "handleFragment j st now p s = (cleanupOldFragments now st, [])"
  using assms
  by (subst handleFragment.simps)
     (simp add: fragmentOpened_def openFragmentSession_def Let_def)

lemma length_update:
  "length (AList.update k v al) = (if k \<in> fst ` set al then length al else Suc (length al))"
  by (induction al) auto

lemma handlers_keep_fragments [simp]:
  "incomingFragments (fst (handleAnnounce st p s)) = incomingFragments st"
  "incomingFragments (fst (handleMessage j st p s)) = incomingFragments st"
  "incomingFragments (fst (handleLeave st p s)) = incomingFragments st"
  by (simp_all add: handleAnnounce_def handleMessage_def handleLeave_def Let_def split: option.splits)

lemma opened_bounded:
  assumes "length (incomingFragments st) \<le> maxConcurrentFragmentSessions"
  shows "length (incomingFragments (fst (fragmentOpened st now p))) \<le> maxConcurrentFragmentSessions"
proof -
  have c: "length (incomingFragments (cleanupOldFragments now st)) \<le> maxConcurrentFragmentSessions"
    using assms sessions_cleanup_le [of now st] by simp
  show ?thesis
    using assms c
    by (auto simp add: fragmentOpened_def openFragmentSession_def Let_def length_update
        split: if_splits)
qed

lemma opened_has:
  "snd (fragmentOpened st now p) \<Longrightarrow>
   map_of (incomingFragments (fst (fragmentOpened st now p))) (fragmentIDOf (payload p)) \<noteq> None"
  by (auto simp add: fragmentOpened_def openFragmentSession_def Let_def update_conv'
      split: if_splits)

lemma stored_length:
  assumes "snd (fragmentOpened st now p)"
  shows "length (incomingFragments (fragmentStored st now p))
         = length (incomingFragments (fst (fragmentOpened st now p)))"
proof -
  from opened_has [OF assms]
  have "fragmentIDOf (payload p) \<in> fst ` set (incomingFragments (fst (fragmentOpened st now p)))"
    by (simp add: map_of_eq_None_iff)
  then show ?thesis
    by (simp add: fragmentStored_def storeFragment_def length_update)
qed

lemma stored_bounded:
  assumes "length (incomingFragments st) \<le> maxConcurrentFragmentSessions"
    and "snd (fragmentOpened st now p)"
  shows "length (incomingFragments (fragmentStored st now p)) \<le> maxConcurrentFragmentSessions"
  using opened_bounded [OF assms(1)] stored_length [OF assms(2)] by simp

lemma le_cleanup:
  "length (incomingFragments st) \<le> n \<Longrightarrow> length (incomingFragments (cleanupOldFragments now st)) \<le> n"
  using sessions_cleanup_le [of now st] by simp

lemma le_dropSession:
  "length (incomingFragments st) \<le> n \<Longrightarrow> length (incomingFragments (dropSession st k)) \<le> n"
  using sessions_dropSession_le [of st k] by simp

lemma sessions_bounded:
  "length (incomingFragments st) \<le> maxConcurrentFragmentSessions \<Longrightarrow>
   length (incomingFragments (fst (handleReceivedPacket j st now p s))) \<le> maxConcurrentFragmentSessions"
  "length (incomingFragments st) \<le> maxConcurrentFragmentSessions \<Longrightarrow>
   length (incomingFragments (fst (handleFragment j st now p s))) \<le> maxConcurrentFragmentSessions"
proof (induction j st now p s and j st now p s rule: handleReceivedPacket_handleFragment.induct)
  case (1 jsonDecode st now packet senderID')
  show ?case
    apply (subst handleReceivedPacket.simps)
    using 1
    apply (simp add: Let_def)
    done
next
  case (2 jsonDecode st now packet senderID')
  note b = "2.prems"
  note sb = stored_bounded [OF b]
  show ?case
    apply (subst handleFragment.simps)
    using 2 opened_bounded [OF b, of now packet] sb
    apply (simp add: Let_def fragmentWaiting_def le_cleanup le_dropSession
        split: option.splits Attempt.splits)
    done
qed



lemma newFragment_id:
  "fragmentIDOf (payload newFragment) = bytesToHex [0xFF, 0xFF, 0xFF, 0xFF, 0xFF, 0xFF, 0xFF, 0xFF]"
  "13 \<le> length (payload newFragment)"
  by (simp_all add: newFragment_def examplePacket_def fragmentIDOf_def)

lemma sessionKey_not_new:
  "sessionKey i \<noteq> bytesToHex [0xFF, 0xFF, 0xFF, 0xFF, 0xFF, 0xFF, 0xFF, 0xFF]"
  "bytesToHex [0xFF, 0xFF, 0xFF, 0xFF, 0xFF, 0xFF, 0xFF, 0xFF] \<noteq> sessionKey i"
  by (simp_all add: sessionKey_def bytesToHex_def hexDigit_def)

lemma fifty_length: "length (incomingFragments fiftySessions) = 50"
  by (simp add: fiftySessions_def)

lemma fifty_unseen:
  "map_of (incomingFragments fiftySessions) (fragmentIDOf (payload newFragment)) = None"
  by (auto simp add: fiftySessions_def newFragment_id map_of_eq_None_iff sessionKey_not_new)

lemma fifty_oldest:
  "map_of (incomingFragments fiftySessions) (sessionKey 0) = Some [(0, [0x41])]"
  by (simp add: fiftySessions_def upt_conv_Cons)

lemma fifty_cleanup: "cleanupOldFragments 1000 fiftySessions = fiftySessions"
  by (rule cleanup_nothing)
     (auto simp add: fiftySessions_def fragmentTimeout_def comp_def sessionBytes_def
        sum_list_triv maxFragmentBytes_def)

lemma fifty_refused:
  "handleFragment noJson fiftySessions 1000 newFragment examplePeer = (fiftySessions, [])"
  using fragment_refused [of newFragment fiftySessions 1000 noJson examplePeer]
  by (simp add: newFragment_id(2) fifty_unseen fifty_cleanup fifty_length
      maxConcurrentFragmentSessions_def)


lemma opened_after_sweep:
  assumes "map_of (incomingFragments st) (fragmentIDOf (payload p)) = None"
    and "maxConcurrentFragmentSessions \<le> length (incomingFragments st)"
    and "length (incomingFragments (cleanupOldFragments now st)) < maxConcurrentFragmentSessions"
  shows "incomingFragments (fst (fragmentOpened st now p))
           = AList.update (fragmentIDOf (payload p)) []
               (incomingFragments (cleanupOldFragments now st))"
  using assms by (simp add: fragmentOpened_def openFragmentSession_def Let_def)

text \<open>
  Claim C6, as amended. The number of fragment sessions never exceeds 50: neither
  \<open>handleReceivedPacket\<close> nor \<open>handleFragment\<close> takes a state with at most 50 sessions to one
  with more. On the first fragment of an unseen identifier when 50 sessions exist,
  expired sessions are swept first; if that makes room the session is opened in the swept
  state, and if 50 sessions remain the new session is refused: the fragment is dropped
  and the state is the swept one. The sweep removes nothing when no session has expired
  and the byte budget is kept, so of 51 concurrent sessions the 51st is refused and the
  50 existing ones, the oldest included, stay.
\<close>

theorem session_bound_refuses_new:
  "maxConcurrentFragmentSessions = 50
   \<and> (length (incomingFragments st) \<le> maxConcurrentFragmentSessions \<longrightarrow>
        length (incomingFragments (fst (handleReceivedPacket j st now p s)))
          \<le> maxConcurrentFragmentSessions
        \<and> length (incomingFragments (fst (handleFragment j st now p s)))
          \<le> maxConcurrentFragmentSessions)
   \<and> (map_of (incomingFragments st) (fragmentIDOf (payload p)) = None
        \<and> maxConcurrentFragmentSessions \<le> length (incomingFragments st)
        \<and> length (incomingFragments (cleanupOldFragments now st)) < maxConcurrentFragmentSessions
        \<longrightarrow> incomingFragments (fst (fragmentOpened st now p))
              = AList.update (fragmentIDOf (payload p)) []
                  (incomingFragments (cleanupOldFragments now st)))
   \<and> (13 \<le> length (payload p)
        \<and> map_of (incomingFragments st) (fragmentIDOf (payload p)) = None
        \<and> maxConcurrentFragmentSessions \<le> length (incomingFragments st)
        \<and> maxConcurrentFragmentSessions \<le> length (incomingFragments (cleanupOldFragments now st))
        \<longrightarrow> handleFragment j st now p s = (cleanupOldFragments now st, []))
   \<and> ((\<forall>(k, m) \<in> set (fragmentMetadata st). \<not> meta_timestamp m < now - fragmentTimeout)
        \<and> sum_list (map (\<lambda>(fragID, fragments). sessionBytes fragments) (incomingFragments st))
              \<le> maxFragmentBytes
        \<longrightarrow> cleanupOldFragments now st = st)"
  using sessions_bounded [of st j now p s] opened_after_sweep [of st p now]
    fragment_refused [of p st now j s] cleanup_nothing [of st now]
  by (simp add: maxConcurrentFragmentSessions_def)

theorem session_bound_witness:
  "length (incomingFragments fiftySessions) \<le> maxConcurrentFragmentSessions
   \<and> 13 \<le> length (payload newFragment)
   \<and> map_of (incomingFragments fiftySessions) (fragmentIDOf (payload newFragment)) = None
   \<and> maxConcurrentFragmentSessions \<le> length (incomingFragments fiftySessions)
   \<and> maxConcurrentFragmentSessions
        \<le> length (incomingFragments (cleanupOldFragments 1000 fiftySessions))
   \<and> length (incomingFragments
          (fst (handleReceivedPacket noJson fiftySessions 1000 newFragment examplePeer)))
        \<le> maxConcurrentFragmentSessions
   \<and> handleFragment noJson fiftySessions 1000 newFragment examplePeer
        = (cleanupOldFragments 1000 fiftySessions, [])"
  using session_bound_refuses_new [of fiftySessions noJson 1000 newFragment examplePeer]
  by (simp add: fifty_length fifty_unseen fifty_cleanup newFragment_id(2))

text \<open>
  Claim C6 as stated fails on ``the oldest evicted first'': with 50 unexpired sessions,
  the first fragment of a 51st identifier leaves the state as it was. The oldest session
  is still there and the new one has not been opened.
\<close>

theorem session_bound_counterexample:
  "length (incomingFragments fiftySessions) = 50
   \<and> map_of (incomingFragments fiftySessions) (sessionKey 0) = Some [(0, [0x41])]
   \<and> map_of (incomingFragments fiftySessions) (fragmentIDOf (payload newFragment)) = None
   \<and> handleFragment noJson fiftySessions 1000 newFragment examplePeer = (fiftySessions, [])"
  using fifty_length fifty_oldest fifty_unseen fifty_refused by simp

end
